theory Spec2Isabelle
  imports Main
begin

section \<open>String primitives\<close>

text \<open>
  Strings are lists of characters.  The JavaScript string primitives that
  \<^verbatim>\<open>run.ts\<close> calls are written out on lists.  \<^verbatim>\<open>lastIndexOf\<close> answers \<open>-1\<close> when the
  character does not occur, so its result is an \<open>int\<close>.
\<close>

fun lastIndexOf :: "string \<Rightarrow> char \<Rightarrow> int" where
  "lastIndexOf [] c = - 1"
| "lastIndexOf (x # xs) c =
     (let r = lastIndexOf xs c
      in if 0 \<le> r then r + 1 else if x = c then 0 else - 1)"

definition substring :: "string \<Rightarrow> int \<Rightarrow> int \<Rightarrow> string" where
  \<comment> \<open>\<^verbatim>\<open>s.substring(a, b)\<close> for \<open>0 \<le> a \<le> b\<close>, as \<^verbatim>\<open>parsePackageSpec\<close> calls it\<close>
  "substring s a b = take (nat b - nat a) (drop (nat a) s)"

definition substring_from :: "string \<Rightarrow> int \<Rightarrow> string" where
  \<comment> \<open>\<^verbatim>\<open>s.substring(a)\<close>\<close>
  "substring_from s a = drop (nat a) s"

fun startsWith :: "string \<Rightarrow> string \<Rightarrow> bool" where
  "startsWith s [] = True"
| "startsWith [] (p # ps) = False"
| "startsWith (x # xs) (p # ps) = (x = p \<and> startsWith xs ps)"

fun replace_first :: "char \<Rightarrow> string \<Rightarrow> string \<Rightarrow> string" where
  \<comment> \<open>\<^verbatim>\<open>s.replace(c, r)\<close> with a one-character string pattern: the first occurrence only\<close>
  "replace_first c r [] = []"
| "replace_first c r (x # xs) = (if x = c then r @ xs else x # replace_first c r xs)"

fun join_with :: "string \<Rightarrow> string list \<Rightarrow> string" where
  \<comment> \<open>\<^verbatim>\<open>array.join(sep)\<close>\<close>
  "join_with sep [] = []"
| "join_with sep [x] = x"
| "join_with sep (x # y # ys) = x @ sep @ join_with sep (y # ys)"

text \<open>
  \<^verbatim>\<open>toUpperCase\<close> and \<^verbatim>\<open>toLowerCase\<close> are built-ins of the runtime.  Every function
  below that calls one takes it as an argument, and \<^verbatim>\<open>handleRun\<close> takes both from the
  host, so that a fact proved here holds whatever they do to letters outside ASCII.  On
  ASCII text they are the two functions that follow, which the example hosts use.
\<close>

definition ascii_upper :: "string \<Rightarrow> string" where
  "ascii_upper s =
     map (\<lambda>c. let n = (of_char c :: nat) in if 97 \<le> n \<and> n \<le> 122 then char_of (n - 32) else c) s"

definition ascii_lower :: "string \<Rightarrow> string" where
  "ascii_lower s =
     map (\<lambda>c. let n = (of_char c :: nat) in if 65 \<le> n \<and> n \<le> 90 then char_of (n + 32) else c) s"

section \<open>Objects used as dictionaries\<close>

text \<open>
  \<^verbatim>\<open>storedConfig\<close>, \<^verbatim>\<open>result\<close> and \<^verbatim>\<open>userConfigValues\<close> are plain objects.  Such an
  object is a map from its own keys to their values, and it inherits the members of
  \<^verbatim>\<open>Object.prototype\<close>.  Reading \<^verbatim>\<open>obj[key]\<close> gives the own value when there is one,
  the inherited member when \<open>key\<close> names one, and \<^verbatim>\<open>undefined\<close> otherwise.  A value is
  therefore a string or an inherited member: a built-in function, or for \<open>__proto__\<close>
  the prototype itself.
\<close>

datatype js_value = JSString string | Inherited string

definition object_prototype_members :: "string list" where
  "object_prototype_members =
     [''constructor'', ''__defineGetter__'', ''__defineSetter__'', ''hasOwnProperty'',
      ''__lookupGetter__'', ''__lookupSetter__'', ''isPrototypeOf'', ''propertyIsEnumerable'',
      ''toString'', ''valueOf'', ''__proto__'', ''toLocaleString'']"

definition get_property :: "(string \<rightharpoonup> js_value) \<Rightarrow> string \<Rightarrow> js_value option" where
  \<comment> \<open>\<^verbatim>\<open>obj[key]\<close>; \<open>None\<close> is \<^verbatim>\<open>undefined\<close>\<close>
  "get_property obj key =
     (case obj key of
        Some v \<Rightarrow> Some v
      | None \<Rightarrow> if key \<in> set object_prototype_members then Some (Inherited key) else None)"

text \<open>
  \<^verbatim>\<open>obj[key] = v\<close> makes \<open>v\<close> the own value of \<open>key\<close>, except under \<open>__proto__\<close>, where
  the inherited setter runs: it ignores a string, and it leaves the object as it is
  when \<open>v\<close> is the prototype the object already has.  The program assigns nothing else
  under that key.
\<close>

definition set_property :: "(string \<rightharpoonup> 'a) \<Rightarrow> string \<Rightarrow> 'a \<Rightarrow> (string \<rightharpoonup> 'a)" where
  "set_property obj key v = (if key = ''__proto__'' then obj else obj(key \<mapsto> v))"

text \<open>
  The string a value turns into when \<^verbatim>\<open>replace\<close> takes it from its callback, as Node
  prints it.
\<close>

fun to_string :: "js_value \<Rightarrow> string" where
  "to_string (JSString s) = s"
| "to_string (Inherited m) =
     (if m = ''__proto__'' then ''[object Object]''
      else if m = ''constructor'' then ''function Object() { [native code] }''
      else ''function '' @ m @ ''() { [native code] }'')"

section \<open>Package specifications\<close>

record PackageSpec =
  name :: string
  version :: "string option"

definition parsePackageSpec :: "string \<Rightarrow> PackageSpec" where
  "parsePackageSpec spec =
     (let lastAtIndex = lastIndexOf spec (CHR ''@'')
      in if lastAtIndex \<le> 0 then \<lparr>name = spec, version = None\<rparr>
         else
           let nm = substring spec 0 lastAtIndex;
               ver = substring_from spec (lastAtIndex + 1)
           in if \<not> startsWith nm ''@'' then \<lparr>name = spec, version = None\<rparr>
              else \<lparr>name = nm, version = Some ver\<rparr>)"

section \<open>Paths and the cache directory\<close>

text \<open>
  \<^verbatim>\<open>join\<close> and \<^verbatim>\<open>dirname\<close> come from Node's \<^verbatim>\<open>path\<close> module; they are modelled in
  their POSIX form.  A path is cut at every \<open>/\<close>; empty and \<open>.\<close> segments are dropped and
  a \<open>..\<close> segment removes the segment before it.
\<close>

fun split_on :: "char \<Rightarrow> string \<Rightarrow> string list" where
  "split_on c [] = [[]]"
| "split_on c (x # xs) =
     (if x = c then [] # split_on c xs
      else (case split_on c xs of
              s # ss \<Rightarrow> (x # s) # ss
            | [] \<Rightarrow> [[x]]))"

definition normalize_segment :: "bool \<Rightarrow> string list \<Rightarrow> string \<Rightarrow> string list" where
  "normalize_segment allowAboveRoot res seg =
     (if seg = [] \<or> seg = ''.'' then res
      else if seg = ''..'' then
        (if res \<noteq> [] \<and> last res \<noteq> ''..'' then butlast res
         else if allowAboveRoot then res @ [''..''] else res)
      else res @ [seg])"

definition normalizeString :: "string \<Rightarrow> bool \<Rightarrow> string" where
  "normalizeString path allowAboveRoot =
     join_with ''/'' (foldl (normalize_segment allowAboveRoot) [] (split_on (CHR ''/'') path))"

definition path_normalize :: "string \<Rightarrow> string" where
  "path_normalize path =
     (if path = [] then ''.''
      else
        let isAbsolute = (hd path = CHR ''/'');
            trailingSeparator = (last path = CHR ''/'');
            p = normalizeString path (\<not> isAbsolute)
        in if p = [] then (if isAbsolute then ''/'' else if trailingSeparator then ''./'' else ''.'')
           else (if isAbsolute then ''/'' else []) @ p @ (if trailingSeparator then ''/'' else []))"

definition join :: "string list \<Rightarrow> string" where
  "join args =
     (let joined = join_with ''/'' (filter (\<lambda>arg. arg \<noteq> []) args)
      in if joined = [] then ''.'' else path_normalize joined)"

definition dirname :: "string \<Rightarrow> string" where
  "dirname path =
     (if path = [] then ''.''
      else
        let hasRoot = (hd path = CHR ''/'');
            r1 = dropWhile (\<lambda>c. c = CHR ''/'') (rev (tl path));
            r2 = dropWhile (\<lambda>c. c \<noteq> CHR ''/'') r1;
            end = length r2
        in if r2 = [] then (if hasRoot then ''/'' else ''.'')
           else if hasRoot \<and> end = 1 then ''//''
           else take end path)"

text \<open>The home directory, \<^verbatim>\<open>homedir()\<close>, is a parameter.\<close>

definition safeName :: "string \<Rightarrow> string" where
  "safeName packageName =
     replace_first (CHR ''/'') ''-'' (replace_first (CHR ''@'') [] packageName)"

definition getCacheDir :: "string \<Rightarrow> string \<Rightarrow> string" where
  "getCacheDir home packageName =
     (let cacheBase = join [home, ''.mpak'', ''cache'']
      in join [cacheBase, safeName packageName])"

text \<open>
  Two notions used to state facts about \<^const>\<open>join\<close>: a segment that normalisation
  leaves alone, and the part of \<open>join [b, s]\<close> that depends on \<open>b\<close> only.
\<close>

definition plain_segment :: "string \<Rightarrow> bool" where
  "plain_segment s \<longleftrightarrow> CHR ''/'' \<notin> set s \<and> s \<noteq> [] \<and> s \<noteq> ''.'' \<and> s \<noteq> ''..''"

definition join_prefix :: "string \<Rightarrow> string" where
  "join_prefix b =
     (if b = [] then []
      else (if hd b = CHR ''/'' then ''/'' else [])
           @ (let res = foldl (normalize_segment (hd b \<noteq> CHR ''/'')) [] (split_on (CHR ''/'') b)
              in if res = [] then [] else join_with ''/'' res @ ''/''))"

section \<open>Placeholders\<close>

text \<open>
  \<^verbatim>\<open>arg.replace(/\$\{__dirname\}/g, cacheDir)\<close> takes \<^verbatim>\<open>cacheDir\<close> as a replacement
  pattern: \<open>$$\<close> stands for \<open>$\<close>, \<open>$&\<close> for the match, \<open>$`\<close> for the text before it
  and \<open>$'\<close> for the text after it.  The expression has no capture group, so \<open>$1\<close> and
  the like stay as they are.
\<close>

fun expand_replacement :: "string \<Rightarrow> string \<Rightarrow> string \<Rightarrow> string \<Rightarrow> string" where
  "expand_replacement [] matched before after = []"
| "expand_replacement [c] matched before after = [c]"
| "expand_replacement (c # d # r) matched before after =
     (if c = CHR ''$'' then
        (if d = CHR ''$'' then CHR ''$'' # expand_replacement r matched before after
         else if d = CHR ''&'' then matched @ expand_replacement r matched before after
         else if d = CHR 0x60 then before @ expand_replacement r matched before after
         else if d = CHR 0x27 then after @ expand_replacement r matched before after
         else c # expand_replacement (d # r) matched before after)
      else c # expand_replacement (d # r) matched before after)"

function resolveArg_from :: "string \<Rightarrow> string \<Rightarrow> string \<Rightarrow> string" where
  \<comment> \<open>the first argument is the text already scanned, the second the text still to scan\<close>
  "resolveArg_from before [] cacheDir = []"
| "resolveArg_from before (c # cs) cacheDir =
     (if startsWith (c # cs) ''${__dirname}''
      then expand_replacement cacheDir ''${__dirname}'' before (drop 12 (c # cs))
             @ resolveArg_from (before @ ''${__dirname}'') (drop 12 (c # cs)) cacheDir
      else c # resolveArg_from (before @ [c]) cs cacheDir)"
  by pat_completeness auto
termination
  by (relation "measure (\<lambda>(before, s, cacheDir). length s)") auto

definition resolveArgs :: "string list \<Rightarrow> string \<Rightarrow> string list" where
  "resolveArgs args cacheDir = map (\<lambda>arg. resolveArg_from [] arg cacheDir) args"

text \<open>
  \<^verbatim>\<open>/\$\{user_config\.([^}]+)\}/\<close> matched at the head of a string: the opening text,
  then the longest run of characters other than \<open>}\<close>, which must be non-empty and be
  followed by \<open>}\<close>.  The result is the key and the text after the match.
\<close>

definition match_user_config :: "string \<Rightarrow> (string \<times> string) option" where
  "match_user_config s =
     (if startsWith s ''${user_config.''
      then let r = drop 14 s;
               key = takeWhile (\<lambda>c. c \<noteq> CHR ''}'') r;
               rest = dropWhile (\<lambda>c. c \<noteq> CHR ''}'') r
           in if key \<noteq> [] \<and> rest \<noteq> [] then Some (key, tl rest) else None
      else None)"

text \<open>
  The global replacement scans from the left; after a match it goes on behind the match.
  The callback returns \<^verbatim>\<open>userConfigValues[key] ?? match\<close>.
\<close>

function substituteUserConfig :: "string \<Rightarrow> (string \<rightharpoonup> js_value) \<Rightarrow> string" where
  "substituteUserConfig [] userConfigValues = []"
| "substituteUserConfig (c # cs) userConfigValues =
     (case match_user_config (c # cs) of
        Some (key, rest) \<Rightarrow>
          (case get_property userConfigValues key of
             Some v \<Rightarrow> to_string v
           | None \<Rightarrow> take (length (c # cs) - length rest) (c # cs))
            @ substituteUserConfig rest userConfigValues
      | None \<Rightarrow> c # substituteUserConfig cs userConfigValues)"
  by pat_completeness auto
termination
proof (relation "measure (\<lambda>(s, m). length s)")
  show "wf (measure (\<lambda>(s, m :: string \<rightharpoonup> js_value). length s))" by simp
next
  fix c cs and userConfigValues :: "string \<rightharpoonup> js_value" and x2 :: "string \<times> string" and key rest
  assume m: "match_user_config (c # cs) = Some x2" and x2: "(key, rest) = x2"
  let ?r = "dropWhile (\<lambda>c. c \<noteq> CHR ''}'') (drop 14 (c # cs))"
  from m x2 have "rest = tl ?r"
    by (auto simp: match_user_config_def Let_def split: if_splits)
  moreover have "length (tl ?r) \<le> length ?r" by simp
  moreover have "length ?r \<le> length (drop 14 (c # cs))" by (rule length_dropWhile_le)
  ultimately have "length rest < length (c # cs)" by simp
  then show "((rest, userConfigValues), c # cs, userConfigValues)
               \<in> measure (\<lambda>(s, m). length s)" by simp
next
  fix c cs and userConfigValues :: "string \<rightharpoonup> js_value"
  show "((cs, userConfigValues), c # cs, userConfigValues) \<in> measure (\<lambda>(s, m). length s)"
    by simp
qed

fun has_placeholder :: "string \<Rightarrow> bool" where
  "has_placeholder [] = False"
| "has_placeholder (c # cs) = (match_user_config (c # cs) \<noteq> None \<or> has_placeholder cs)"

function placeholder_keys :: "string \<Rightarrow> string list" where
  \<comment> \<open>the keys of the references that the replacement finds, in the order of the scan\<close>
  "placeholder_keys [] = []"
| "placeholder_keys (c # cs) =
     (case match_user_config (c # cs) of
        Some (key, rest) \<Rightarrow> key # placeholder_keys rest
      | None \<Rightarrow> placeholder_keys cs)"
  by pat_completeness auto
termination
proof (relation "measure length")
  show "wf (measure (length :: string \<Rightarrow> nat))" by simp
next
  fix c cs and x2 :: "string \<times> string" and key rest
  assume m: "match_user_config (c # cs) = Some x2" and x2: "(key, rest) = x2"
  let ?r = "dropWhile (\<lambda>c. c \<noteq> CHR ''}'') (drop 14 (c # cs))"
  from m x2 have "rest = tl ?r"
    by (auto simp: match_user_config_def Let_def split: if_splits)
  moreover have "length (tl ?r) \<le> length ?r" by simp
  moreover have "length ?r \<le> length (drop 14 (c # cs))" by (rule length_dropWhile_le)
  ultimately have "length rest < length (c # cs)" by simp
  then show "(rest, c # cs) \<in> measure length" by simp
next
  fix c :: char and cs :: string
  show "(cs, c # cs) \<in> measure length" by simp
qed

text \<open>
  \<^verbatim>\<open>Object.entries(env)\<close> is a list of pairs with distinct keys; \<^verbatim>\<open>undefined\<close> is
  \<open>None\<close>.
\<close>

definition substituteEnvVars ::
  "(string \<times> string) list option \<Rightarrow> (string \<rightharpoonup> js_value) \<Rightarrow> (string \<rightharpoonup> string)" where
  "substituteEnvVars env userConfigValues =
     (case env of
        None \<Rightarrow> Map.empty
      | Some entries \<Rightarrow>
          foldl (\<lambda>result (key, v).
                   set_property result key (substituteUserConfig v userConfigValues))
                Map.empty entries)"

section \<open>User configuration\<close>

text \<open>
  A default value is a string, a number or a boolean.  Only \<^verbatim>\<open>String(default)\<close> is ever
  read, so a number is carried by the text JavaScript prints for it.
\<close>

datatype config_default = DString string | DNumber string | DBoolean bool

fun String_of :: "config_default \<Rightarrow> string" where
  "String_of (DString s) = s"
| "String_of (DNumber n) = n"
| "String_of (DBoolean b) = (if b then ''true'' else ''false'')"

text \<open>
  An optional field is an \<open>option\<close>.  The fields \<^verbatim>\<open>type\<close> and \<^verbatim>\<open>default\<close> are
  \<open>field_type\<close> and \<open>default_value\<close> here.
\<close>

record UserConfigField =
  field_type :: string
  title :: "string option"
  description :: "string option"
  sensitive :: "bool option"
  required :: "bool option"
  default_value :: "config_default option"

type_synonym platform = "string \<times> string"

text \<open>
  The cache metadata; its \<^verbatim>\<open>version\<close> is \<open>cached_version\<close> here, since \<open>version\<close>
  is the field of a parsed package specification.
\<close>

record CacheMetadata =
  cached_version :: string
  pulledAt :: string
  platform :: platform

text \<open>What the program does to the world, in order.\<close>

datatype event =
    StderrWrite string
  | Question string
  | SetPackageConfigValue string string string
  | NewConfigManager
  | GetDownloadInfo string "string option" platform
  | Mkdir string
  | DownloadBundle string string
  | Rm string
  | ExtractZip string string
  | WriteCacheMetadata string CacheMetadata
  | Chmod string
  | SpawnSync string "string list"

datatype gather_result =
    GatherExit nat
  | GatherThrown string
  | GatherValues "string \<rightharpoonup> js_value"

text \<open>
  One round of the loop over \<^verbatim>\<open>Object.entries(userConfig)\<close> (lines 229 to 244): the
  state is the result object and the list of missing required fields.  The name of the
  environment variable starts with \<open>MPAK_CONFIG_\<close>, so it never names an inherited
  member and \<^verbatim>\<open>process.env[envVarName]\<close> reads an own key.
\<close>

definition gather_step ::
  "(string \<Rightarrow> string) \<Rightarrow> (string \<rightharpoonup> js_value) \<Rightarrow> (string \<rightharpoonup> string)
   \<Rightarrow> (string \<rightharpoonup> js_value) \<times> (string \<times> UserConfigField) list
   \<Rightarrow> string \<times> UserConfigField
   \<Rightarrow> (string \<rightharpoonup> js_value) \<times> (string \<times> UserConfigField) list" where
  "gather_step toUpperCase storedConfig process_env st entry =
     (let (result, missingRequired) = st;
          (key, field) = entry;
          storedValue = get_property storedConfig key;
          envVarName = ''MPAK_CONFIG_'' @ toUpperCase key;
          envValue = process_env envVarName
      in case storedValue of
           Some sv \<Rightarrow> (set_property result key sv, missingRequired)
         | None \<Rightarrow>
            (case envValue of
               Some ev \<Rightarrow> (set_property result key (JSString ev), missingRequired)
             | None \<Rightarrow>
                (case default_value field of
                   Some d \<Rightarrow> (set_property result key (JSString (String_of d)), missingRequired)
                 | None \<Rightarrow>
                    if required field = Some True
                    then (result, missingRequired @ [(key, field)])
                    else (result, missingRequired))))"

definition gather_loop ::
  "(string \<Rightarrow> string) \<Rightarrow> (string \<rightharpoonup> js_value) \<Rightarrow> (string \<rightharpoonup> string)
   \<Rightarrow> (string \<times> UserConfigField) list
   \<Rightarrow> (string \<rightharpoonup> js_value) \<times> (string \<times> UserConfigField) list" where
  "gather_loop toUpperCase storedConfig process_env userConfig =
     foldl (gather_step toUpperCase storedConfig process_env) (Map.empty, []) userConfig"

definition label_of :: "UserConfigField \<Rightarrow> string \<Rightarrow> string" where
  \<comment> \<open>\<^verbatim>\<open>field.title || key\<close>\<close>
  "label_of field key = (case title field of Some t \<Rightarrow> if t \<noteq> [] then t else key | None \<Rightarrow> key)"

text \<open>\<^verbatim>\<open>promptForValue\<close>: the answer typed by the operator is an argument.\<close>

definition promptForValue :: "UserConfigField \<Rightarrow> string \<Rightarrow> string \<Rightarrow> event list \<times> string" where
  "promptForValue field key answer =
     (let label = label_of field key;
          hint = (case description field of
                    Some d \<Rightarrow> if d \<noteq> [] then '' ('' @ d @ '')'' else []
                  | None \<Rightarrow> []);
          defaultHint = (case default_value field of
                           Some d \<Rightarrow> '' ['' @ String_of d @ '']''
                         | None \<Rightarrow> []);
          prompt = ''=> '' @ label @ hint @ defaultHint @ '': '';
          note = (if sensitive field = Some True
                  then [StderrWrite (''=> (sensitive input)'' @ [CHR 0x0A])] else [])
      in (note @ [Question prompt],
          (case default_value field of
             Some d \<Rightarrow> if answer = [] then String_of d else answer
           | None \<Rightarrow> answer)))"

text \<open>
  The loop over the missing required fields (lines 257 to 283).  The operator's answers
  are a sequence; \<open>n\<close> is the position of the next one.
\<close>

fun prompt_loop ::
  "(string \<Rightarrow> string) \<Rightarrow> (nat \<Rightarrow> string) \<Rightarrow> string \<Rightarrow> (string \<times> UserConfigField) list
   \<Rightarrow> (string \<rightharpoonup> js_value) \<Rightarrow> nat \<Rightarrow> event list \<Rightarrow> event list \<times> gather_result" where
  "prompt_loop toLowerCase answers packageName [] result n evs = (evs, GatherValues result)"
| "prompt_loop toLowerCase answers packageName ((key, field) # missing) result n evs =
     (let (evs1, v) = promptForValue field key (answers n)
      in if v = [] \<and> required field = Some True
         then (evs @ evs1
                 @ [StderrWrite (''=> Error: '' @ label_of field key @ '' is required'' @ [CHR 0x0A])],
               GatherExit 1)
         else
           let result' = set_property result key (JSString v)
           in if v \<noteq> []
              then
                let answer = answers (n + 1);
                    evs2 = Question (''=> Save '' @ label_of field key @ '' for future runs? [Y/n]: '')
                           # (if toLowerCase answer \<noteq> ''n''
                              then [SetPackageConfigValue packageName key v,
                                    StderrWrite (''=> Saved to ~/.mpak/config.json'' @ [CHR 0x0A])]
                              else [])
                in prompt_loop toLowerCase answers packageName missing result' (n + 2)
                     (evs @ evs1 @ evs2)
              else prompt_loop toLowerCase answers packageName missing result' (n + 1)
                     (evs @ evs1))"

text \<open>
  \<^verbatim>\<open>gatherUserConfigValues\<close>.  What \<^verbatim>\<open>configManager.getPackageConfig(packageName)\<close>
  gives is an argument: the stored values of the package (strings under their own
  keys), nothing, or the error that loading the store throws.  \<^verbatim>\<open>process.exit(1)\<close>
  ends the run.
\<close>

definition stored_of :: "(string \<rightharpoonup> string) option \<Rightarrow> (string \<rightharpoonup> js_value)" where
  \<comment> \<open>\<^verbatim>\<open>configManager.getPackageConfig(packageName) || {}\<close>\<close>
  "stored_of stored =
     (case stored of Some c \<Rightarrow> (\<lambda>key. map_option JSString (c key)) | None \<Rightarrow> Map.empty)"

definition gatherUserConfigValues ::
  "(string \<Rightarrow> string) \<Rightarrow> (string \<Rightarrow> string)
   \<Rightarrow> (string + (string \<rightharpoonup> string) option) \<Rightarrow> (string \<rightharpoonup> string) \<Rightarrow> bool \<Rightarrow> (nat \<Rightarrow> string)
   \<Rightarrow> string \<Rightarrow> (string \<times> UserConfigField) list \<Rightarrow> event list \<times> gather_result" where
  "gatherUserConfigValues toUpperCase toLowerCase packageConfig process_env isInteractive answers
       packageName userConfig =
     (case packageConfig of
        Inl err \<Rightarrow> ([], GatherThrown err)
      | Inr stored \<Rightarrow>
          let storedConfig = stored_of stored;
              (result, missingRequired) = gather_loop toUpperCase storedConfig process_env userConfig
          in if missingRequired \<noteq> []
             then
               if \<not> isInteractive
               then
                 ([StderrWrite (''=> Error: Missing required config: ''
                                  @ join_with '', '' (map fst missingRequired) @ [CHR 0x0A]),
                   StderrWrite (''=> Run '' @ [CHR 0x27] @ ''mpak config set '' @ packageName
                                  @ '' <key>=<value>'' @ [CHR 0x27] @ '' to set values'' @ [CHR 0x0A]),
                   StderrWrite (''=> Or set environment variables: ''
                                  @ join_with '', ''
                                      (map (\<lambda>m. ''MPAK_CONFIG_'' @ toUpperCase (fst m)) missingRequired)
                                  @ [CHR 0x0A])],
                  GatherExit 1)
               else
                 prompt_loop toLowerCase answers packageName missingRequired result 0
                   [StderrWrite (''=> Package requires configuration:'' @ [CHR 0x0A])]
             else ([], GatherValues result))"

section \<open>The configuration store\<close>

text \<open>
  A parsed JSON value.  An object is the list of its entries, in the order of
  \<^verbatim>\<open>Object.entries\<close>, with distinct keys.  A number is carried by its literal.
\<close>

datatype json =
    JNull
  | JBool bool
  | JNumber string
  | JString string
  | JArray "json list"
  | JObject "(string \<times> json) list"

fun typeof :: "json \<Rightarrow> string" where
  "typeof JNull = ''object''"
| "typeof (JBool b) = ''boolean''"
| "typeof (JNumber n) = ''number''"
| "typeof (JString s) = ''string''"
| "typeof (JArray xs) = ''object''"
| "typeof (JObject kvs) = ''object''"

fun digits :: "nat \<Rightarrow> string" where
  "digits n = (if n < 10 then [char_of (48 + n)] else digits (n div 10) @ [char_of (48 + n mod 10)])"

declare digits.simps [simp del]

fun entries :: "json \<Rightarrow> (string \<times> json) list" where
  \<comment> \<open>\<^verbatim>\<open>Object.entries\<close>: the entries of an array are its elements under their indices\<close>
  "entries (JObject kvs) = kvs"
| "entries (JArray xs) = zip (map digits [0 ..< length xs]) xs"
| "entries v = []"

fun get_field :: "json \<Rightarrow> string \<Rightarrow> json option" where
  \<comment> \<open>\<^verbatim>\<open>obj.k\<close> for the four names \<^verbatim>\<open>validateConfig\<close> reads; \<open>None\<close> is \<^verbatim>\<open>undefined\<close>.
      None of the four is an index or a property of an array.\<close>
  "get_field (JObject kvs) k = map_of kvs k"
| "get_field v k = None"

datatype error = ConfigCorruptedError string string

fun validate_values :: "string \<Rightarrow> (string \<times> json) list \<Rightarrow> string \<Rightarrow> error option" where
  \<comment> \<open>the inner loop, lines 96 to 105\<close>
  "validate_values pkgName [] configPath = None"
| "validate_values pkgName ((key, v) # kvs) configPath =
     (if typeof v \<noteq> ''string''
      then Some (ConfigCorruptedError
                   (''Config packages.'' @ pkgName @ ''.'' @ key @ '' must be a string'') configPath)
      else validate_values pkgName kvs configPath)"

fun validate_packages :: "(string \<times> json) list \<Rightarrow> string \<Rightarrow> error option" where
  \<comment> \<open>the outer loop, lines 86 to 106\<close>
  "validate_packages [] configPath = None"
| "validate_packages ((pkgName, pkgConfig) # rest) configPath =
     (if typeof pkgConfig \<noteq> ''object'' \<or> pkgConfig = JNull
      then Some (ConfigCorruptedError
                   (''Config packages.'' @ pkgName @ '' must be an object'') configPath)
      else (case validate_values pkgName (entries pkgConfig) configPath of
              Some e \<Rightarrow> Some e
            | None \<Rightarrow> validate_packages rest configPath))"

definition knownFields :: "string list" where
  "knownFields = [''version'', ''lastUpdated'', ''registryUrl'', ''packages'']"

definition validateConfig :: "json \<Rightarrow> string \<Rightarrow> error + json" where
  "validateConfig data configPath =
     (if typeof data \<noteq> ''object'' \<or> data = JNull
      then Inl (ConfigCorruptedError ''Config file must be a JSON object'' configPath)
      else if (case get_field data ''version'' of Some v \<Rightarrow> typeof v \<noteq> ''string'' | None \<Rightarrow> True)
      then Inl (ConfigCorruptedError ''Config missing required field: version (string)'' configPath)
      else if (case get_field data ''lastUpdated'' of Some v \<Rightarrow> typeof v \<noteq> ''string'' | None \<Rightarrow> True)
      then Inl (ConfigCorruptedError ''Config missing required field: lastUpdated (string)'' configPath)
      else if (case get_field data ''registryUrl'' of Some v \<Rightarrow> typeof v \<noteq> ''string'' | None \<Rightarrow> False)
      then Inl (ConfigCorruptedError ''Config field registryUrl must be a string'' configPath)
      else
        (case (case get_field data ''packages'' of
                 None \<Rightarrow> None
               | Some packages \<Rightarrow>
                   if typeof packages \<noteq> ''object'' \<or> packages = JNull
                   then Some (ConfigCorruptedError ''Config field packages must be an object'' configPath)
                   else validate_packages (entries packages) configPath) of
           Some e \<Rightarrow> Inl e
         | None \<Rightarrow>
             (case find (\<lambda>key. key \<notin> set knownFields) (map fst (entries data)) of
                Some key \<Rightarrow>
                  Inl (ConfigCorruptedError (''Config contains unknown field: '' @ key) configPath)
              | None \<Rightarrow> Inr data)))"

text \<open>
  The file \<^verbatim>\<open>~/.mpak/config.json\<close>: absent, unreadable, not JSON, or a JSON value.
  \<^verbatim>\<open>JSON.parse\<close> itself is not modelled.
\<close>

datatype config_file = Absent | Unreadable string | InvalidJson string | Parsed json

record ConfigManager =
  configFile :: string
  config :: "json option"

definition CONFIG_VERSION :: string where
  "CONFIG_VERSION = ''1.0.0''"

text \<open>
  \<^verbatim>\<open>loadConfig\<close> returns the configuration or throws; the manager and the file after
  the call come with it.  The time of the call is an argument.
\<close>

definition loadConfig ::
  "ConfigManager \<Rightarrow> config_file \<Rightarrow> string \<Rightarrow> (error + json) \<times> ConfigManager \<times> config_file" where
  "loadConfig cm file now =
     (case config cm of
        Some cfg \<Rightarrow> (Inr cfg, cm, file)
      | None \<Rightarrow>
          (case file of
             Absent \<Rightarrow>
               let cfg = JObject [(''version'', JString CONFIG_VERSION), (''lastUpdated'', JString now)]
               in (Inr cfg, cm\<lparr>config := Some cfg\<rparr>, Parsed cfg)
           | Unreadable msg \<Rightarrow>
               (Inl (ConfigCorruptedError (''Failed to read config file: '' @ msg) (configFile cm)),
                cm, file)
           | InvalidJson msg \<Rightarrow>
               (Inl (ConfigCorruptedError (''Config file contains invalid JSON: '' @ msg) (configFile cm)),
                cm, file)
           | Parsed parsed \<Rightarrow>
               (case validateConfig parsed (configFile cm) of
                  Inl e \<Rightarrow> (Inl e, cm, file)
                | Inr cfg \<Rightarrow> (Inr cfg, cm\<lparr>config := Some cfg\<rparr>, file))))"

section \<open>Running a package\<close>

text \<open>
  The options of the command, and what \<^verbatim>\<open>client.getDownloadInfo\<close> answers:
  \<^verbatim>\<open>downloadInfo.url\<close>, \<^verbatim>\<open>downloadInfo.bundle.version\<close> and
  \<^verbatim>\<open>downloadInfo.bundle.platform\<close>.  In the manifest, \<^verbatim>\<open>server.type\<close> is
  \<open>server_type\<close>; a type outside the three known ones is kept as \<open>OtherType\<close>.
\<close>

record RunOptions =
  update :: bool

record DownloadInfo =
  url :: string
  bundle_version :: string
  bundle_platform :: platform

record McpConfig =
  command :: "string option"
  args :: "string list option"
  env :: "(string \<times> string) list option"

datatype server_type = Node | Python | Binary | OtherType string

text \<open>
  Of the manifest, \<^verbatim>\<open>handleRun\<close> reads \<^verbatim>\<open>user_config\<close> and \<^verbatim>\<open>server\<close>.
  \<^verbatim>\<open>user_config\<close> is the list of its entries, with distinct keys.
\<close>

record McpbManifest =
  user_config :: "(string \<times> UserConfigField) list option"
  server_type :: server_type
  entry_point :: string
  mcp_config :: McpConfig

datatype manifest_file = ManifestMissing | ManifestUnparsable string | ManifestFile McpbManifest

text \<open>
  Everything \<^verbatim>\<open>handleRun\<close> reads from outside: the home directory, the ambient
  environment, the terminal and what the operator types, the metadata and the manifest
  in the cache, the registry's answer, the failures of the download and of
  \<^verbatim>\<open>unzip\<close>, the manifest of the downloaded bundle, the clock, the stored
  configuration, whether \<^verbatim>\<open>python3 --version\<close> succeeds, and the two case
  conversions of the runtime.  The stored configuration of a package is the error that
  loading the store throws, nothing, or the own entries of a plain object of strings.
\<close>

record Host =
  homedir :: string
  process_env :: "string \<rightharpoonup> string"
  isTTY :: bool
  answers :: "nat \<Rightarrow> string"
  detectPlatform :: platform
  getCacheMetadata :: "CacheMetadata option"
  cacheDir_exists :: bool
  cached_manifest :: manifest_file
  getDownloadInfo :: "string \<Rightarrow> string option \<Rightarrow> platform \<Rightarrow> string + DownloadInfo"
  downloadBundle_error :: "string option"
  unzip_error :: "string option"
  bundle_manifest :: manifest_file
  now_millis :: string
  now_iso :: string
  getPackageConfig :: "string \<Rightarrow> string + (string \<rightharpoonup> string) option"
  python3_ok :: bool
  toUpperCase :: "string \<Rightarrow> string"
  toLowerCase :: "string \<Rightarrow> string"

text \<open>
  How a run ends, as far as the model follows it: the process exits with a status, an
  error is thrown out of \<^verbatim>\<open>handleRun\<close>, or the child is spawned with a command, its
  arguments, its environment and its working directory.  What happens after the spawn
  (the forwarding of signals, the child's exit code) is not modelled.
\<close>

datatype outcome =
    Exited nat
  | Thrown string
  | Spawned string "string list" "string \<rightharpoonup> string" string

text \<open>The first decision on the cache, lines 314 to 326.  An empty version string is falsy.\<close>

definition needsPull_from_cache :: "CacheMetadata option \<Rightarrow> RunOptions \<Rightarrow> string option \<Rightarrow> bool" where
  "needsPull_from_cache cachedMeta options requestedVersion =
     (case cachedMeta of
        None \<Rightarrow> True
      | Some meta \<Rightarrow>
          if \<not> update options
          then (case requestedVersion of
                  Some v \<Rightarrow> if v \<noteq> [] then cached_version meta \<noteq> v else False
                | None \<Rightarrow> False)
          else True)"

text \<open>The download, lines 339 to 365.\<close>

definition pull :: "Host \<Rightarrow> string \<Rightarrow> DownloadInfo \<Rightarrow> string \<Rightarrow> event list \<times> (string + unit)" where
  "pull host nm downloadInfo cacheDir =
     (let tempPath = join [homedir host, ''.mpak'', ''tmp'', now_millis host @ ''.mcpb''];
          evs1 = [Mkdir (dirname tempPath),
                  StderrWrite (''=> Pulling '' @ nm @ ''@'' @ bundle_version downloadInfo
                                 @ ''...'' @ [CHR 0x0A]),
                  DownloadBundle (url downloadInfo) tempPath]
      in case downloadBundle_error host of
           Some e \<Rightarrow> (evs1, Inl e)
         | None \<Rightarrow>
             let evs2 = (if cacheDir_exists host then [Rm cacheDir] else [])
                        @ [Mkdir cacheDir, Mkdir cacheDir, ExtractZip tempPath cacheDir]
             in case unzip_error host of
                  Some e \<Rightarrow> (evs1 @ evs2, Inl (''Failed to extract bundle: '' @ e))
                | None \<Rightarrow>
                    (evs1 @ evs2
                       @ [WriteCacheMetadata cacheDir
                            \<lparr>cached_version = bundle_version downloadInfo,
                             pulledAt = now_iso host,
                             platform = bundle_platform downloadInfo\<rparr>,
                          Rm tempPath,
                          StderrWrite (''=> Cached '' @ nm @ ''@'' @ bundle_version downloadInfo
                                         @ [CHR 0x0A])],
                     Inr ()))"

text \<open>
  Lines 314 to 367.  The result tells whether the bundle was downloaded and extracted.
\<close>

definition ensureCached ::
  "Host \<Rightarrow> RunOptions \<Rightarrow> string \<Rightarrow> string option \<Rightarrow> string \<Rightarrow> event list \<times> (string + bool)" where
  "ensureCached host options nm requestedVersion cacheDir =
     (let cachedMeta = getCacheMetadata host
      in if needsPull_from_cache cachedMeta options requestedVersion
         then
           (case getDownloadInfo host nm requestedVersion (detectPlatform host) of
              Inl err \<Rightarrow> ([GetDownloadInfo nm requestedVersion (detectPlatform host)], Inl err)
            | Inr downloadInfo \<Rightarrow>
                if (case cachedMeta of
                      Some meta \<Rightarrow>
                        cached_version meta = bundle_version downloadInfo \<and> \<not> update options
                    | None \<Rightarrow> False)
                then ([GetDownloadInfo nm requestedVersion (detectPlatform host)], Inr False)
                else
                  (case pull host nm downloadInfo cacheDir of
                     (evs, Inl err) \<Rightarrow>
                       (GetDownloadInfo nm requestedVersion (detectPlatform host) # evs, Inl err)
                   | (evs, Inr u) \<Rightarrow>
                       (GetDownloadInfo nm requestedVersion (detectPlatform host) # evs, Inr True)))
         else ([], Inr False))"

definition findPythonCommand :: "Host \<Rightarrow> event list \<times> string" where
  "findPythonCommand host =
     ([SpawnSync ''python3'' [''--version'']], if python3_ok host then ''python3'' else ''python'')"

text \<open>The environment of the child before the switch on the server type, line 385.\<close>

definition spawn_env :: "(string \<rightharpoonup> string) \<Rightarrow> (string \<rightharpoonup> string) \<Rightarrow> (string \<rightharpoonup> string)" where
  "spawn_env penv substitutedEnv = penv ++ substitutedEnv"

text \<open>Lines 383 to 440: the command, its arguments and its environment, and the spawn.\<close>

definition launch ::
  "Host \<Rightarrow> string \<Rightarrow> McpbManifest \<Rightarrow> (string \<rightharpoonup> string) \<Rightarrow> event list \<times> outcome" where
  "launch host cacheDir manifest substitutedEnv =
     (let mcp = mcp_config manifest;
          env0 = spawn_env (process_env host) substitutedEnv;
          given = (case args mcp of Some a \<Rightarrow> a | None \<Rightarrow> []);
          script_args = (if given \<noteq> [] then resolveArgs given cacheDir
                         else [join [cacheDir, entry_point manifest]])
      in case server_type manifest of
           Binary \<Rightarrow>
             let cmd = join [cacheDir, entry_point manifest]
             in ([Chmod cmd], Spawned cmd (resolveArgs given cacheDir) env0 cacheDir)
         | Node \<Rightarrow>
             let cmd = (case command mcp of Some c \<Rightarrow> if c \<noteq> [] then c else ''node'' | None \<Rightarrow> ''node'')
             in ([], Spawned cmd script_args env0 cacheDir)
         | Python \<Rightarrow>
             let (evs, cmd) =
                   (case command mcp of
                      Some c \<Rightarrow> if c = ''python'' \<or> c = [] then findPythonCommand host else ([], c)
                    | None \<Rightarrow> findPythonCommand host);
                 depsDir = join [cacheDir, ''deps''];
                 pythonPath = (case process_env host ''PYTHONPATH'' of
                                 Some existing \<Rightarrow>
                                   if existing \<noteq> [] then depsDir @ '':'' @ existing else depsDir
                               | None \<Rightarrow> depsDir)
             in (evs, Spawned cmd script_args (env0(''PYTHONPATH'' \<mapsto> pythonPath)) cacheDir)
         | OtherType t \<Rightarrow> ([], Thrown (''Unsupported server type: '' @ t)))"

definition handleRun :: "Host \<Rightarrow> string \<Rightarrow> RunOptions \<Rightarrow> event list \<times> outcome" where
  "handleRun host packageSpec options =
     (let spec = parsePackageSpec packageSpec;
          nm = name spec;
          requestedVersion = version spec;
          cacheDir = getCacheDir (homedir host) nm
      in case ensureCached host options nm requestedVersion cacheDir of
           (evs1, Inl err) \<Rightarrow> (evs1, Thrown err)
         | (evs1, Inr pulled) \<Rightarrow>
             (case (if pulled then bundle_manifest host else cached_manifest host) of
                ManifestMissing \<Rightarrow>
                  (evs1, Thrown (''Manifest not found in bundle: '' @ join [cacheDir, ''manifest.json'']))
              | ManifestUnparsable msg \<Rightarrow> (evs1, Thrown msg)
              | ManifestFile manifest \<Rightarrow>
                  let (evs2, gathered) =
                        (case user_config manifest of
                           Some uc \<Rightarrow>
                             if uc \<noteq> []
                             then
                               (case gatherUserConfigValues (toUpperCase host) (toLowerCase host)
                                       (getPackageConfig host nm)
                                       (process_env host) (isTTY host) (answers host) nm uc of
                                  (evs, g) \<Rightarrow> (NewConfigManager # evs, g))
                             else ([], GatherValues Map.empty)
                         | None \<Rightarrow> ([], GatherValues Map.empty))
                  in case gathered of
                       GatherExit code \<Rightarrow> (evs1 @ evs2, Exited code)
                     | GatherThrown msg \<Rightarrow> (evs1 @ evs2, Thrown msg)
                     | GatherValues userConfigValues \<Rightarrow>
                         let substitutedEnv = substituteEnvVars (env (mcp_config manifest)) userConfigValues;
                             (evs3, out) = launch host cacheDir manifest substitutedEnv
                         in (evs1 @ evs2 @ evs3, out)))"

section \<open>Notions used in the statements\<close>


text \<open>
  The value the loop of \<^verbatim>\<open>gatherUserConfigValues\<close> finds for one field, if any; used to
  state facts about the loop.
\<close>

definition resolved_value ::
  "(string \<Rightarrow> string) \<Rightarrow> (string \<rightharpoonup> js_value) \<Rightarrow> (string \<rightharpoonup> string) \<Rightarrow> string
   \<Rightarrow> UserConfigField \<Rightarrow> js_value option" where
  "resolved_value upper storedConfig penv key fld =
     (case get_property storedConfig key of
        Some sv \<Rightarrow> Some sv
      | None \<Rightarrow>
          (case penv (''MPAK_CONFIG_'' @ upper key) of
             Some ev \<Rightarrow> Some (JSString ev)
           | None \<Rightarrow> map_option (\<lambda>d. JSString (String_of d)) (default_value fld)))"

definition spawned_env :: "outcome \<Rightarrow> (string \<rightharpoonup> string)" where
  \<comment> \<open>the environment handed to \<^verbatim>\<open>spawn\<close>, when the run gets that far\<close>
  "spawned_env out = (case out of Spawned cmd as e cwd \<Rightarrow> e | _ \<Rightarrow> Map.empty)"

definition spawned :: "outcome \<Rightarrow> bool" where
  \<comment> \<open>whether the run gets as far as \<^verbatim>\<open>spawn\<close>\<close>
  "spawned out = (case out of Spawned cmd as e cwd \<Rightarrow> True | _ \<Rightarrow> False)"

section \<open>An example host\<close>

text \<open>
  A host for concrete runs: a bundle of \<open>@acme/tool\<close> at version \<open>1.0.0\<close> is cached, the
  registry offers the same version, the manifest passes the user configuration
  \<open>api_key\<close> to the server as \<open>API_TOKEN\<close>, the store holds a value for \<open>api_key\<close>, and
  the launcher has set \<open>API_TOKEN\<close> itself.  There is no terminal.
\<close>

definition example_manifest :: McpbManifest where
  "example_manifest =
     \<lparr>user_config = Some [(''api_key'',
          \<lparr>field_type = ''string'', title = Some ''API Token'', description = None,
           sensitive = Some True, required = Some True, default_value = None\<rparr>)],
      server_type = Node,
      entry_point = ''dist/index.js'',
      mcp_config = \<lparr>command = Some ''node'',
                    args = Some [''${__dirname}/dist/index.js''],
                    env = Some [(''API_TOKEN'', ''${user_config.api_key}'')]\<rparr>\<rparr>"

definition example_host :: Host where
  "example_host =
     \<lparr>homedir = ''/home/user'',
      process_env = [''API_TOKEN'' \<mapsto> ''from-launcher''],
      isTTY = False,
      answers = (\<lambda>n. []),
      detectPlatform = (''linux'', ''x64''),
      getCacheMetadata = Some \<lparr>cached_version = ''1.0.0'', pulledAt = ''2024-01-01T00:00:00.000Z'',
                               platform = (''linux'', ''x64'')\<rparr>,
      cacheDir_exists = True,
      cached_manifest = ManifestFile example_manifest,
      getDownloadInfo = (\<lambda>n v p. Inr \<lparr>url = ''https://registry.example/acme-tool-1.0.0.mcpb'',
                                         bundle_version = ''1.0.0'',
                                         bundle_platform = (''linux'', ''x64'')\<rparr>),
      downloadBundle_error = None,
      unzip_error = None,
      bundle_manifest = ManifestFile example_manifest,
      now_millis = ''1704067200000'',
      now_iso = ''2024-01-01T00:00:00.000Z'',
      getPackageConfig = (\<lambda>n. Inr (Some [''api_key'' \<mapsto> ''from-store''])),
      python3_ok = True,
      toUpperCase = ascii_upper,
      toLowerCase = ascii_lower\<rparr>"

text \<open>
  Two manifests whose user configuration has a field named after a member of
  \<^verbatim>\<open>Object.prototype\<close>: a required \<open>toString\<close> and an optional \<open>constructor\<close>, each
  without a default and each passed to the server in \<open>TOOL_TOKEN\<close>.  The hosts that
  hold them have nothing stored for the package.
\<close>

definition required_toString_manifest :: McpbManifest where
  "required_toString_manifest =
     \<lparr>user_config = Some [(''toString'',
          \<lparr>field_type = ''string'', title = None, description = None,
           sensitive = None, required = Some True, default_value = None\<rparr>)],
      server_type = Node,
      entry_point = ''dist/index.js'',
      mcp_config = \<lparr>command = Some ''node'',
                    args = Some [''${__dirname}/dist/index.js''],
                    env = Some [(''TOOL_TOKEN'', ''${user_config.toString}'')]\<rparr>\<rparr>"

definition optional_constructor_manifest :: McpbManifest where
  "optional_constructor_manifest =
     \<lparr>user_config = Some [(''constructor'',
          \<lparr>field_type = ''string'', title = None, description = None,
           sensitive = None, required = None, default_value = None\<rparr>)],
      server_type = Node,
      entry_point = ''dist/index.js'',
      mcp_config = \<lparr>command = Some ''node'',
                    args = Some [''${__dirname}/dist/index.js''],
                    env = Some [(''TOOL_TOKEN'', ''${user_config.constructor}'')]\<rparr>\<rparr>"

definition required_toString_host :: Host where
  "required_toString_host =
     example_host\<lparr>cached_manifest := ManifestFile required_toString_manifest,
                  getPackageConfig := (\<lambda>n. Inr None)\<rparr>"

definition optional_constructor_host :: Host where
  "optional_constructor_host =
     example_host\<lparr>cached_manifest := ManifestFile optional_constructor_manifest,
                  getPackageConfig := (\<lambda>n. Inr None)\<rparr>"

section \<open>Facts about the string primitives\<close>

lemma lastIndexOf_absent: "c \<notin> set s \<Longrightarrow> lastIndexOf s c = - 1"
  by (induction s) (auto simp: Let_def)

lemma lastIndexOf_last_occurrence:
  "c \<notin> set ys \<Longrightarrow> lastIndexOf (xs @ c # ys) c = int (length xs)"
  by (induction xs) (auto simp: Let_def lastIndexOf_absent)

lemma lastIndexOf_nonneg_mem: "0 \<le> lastIndexOf s c \<Longrightarrow> c \<in> set s"
  using lastIndexOf_absent [of c s] by force

lemma lastIndexOf_pos_tail: "0 < lastIndexOf s c \<Longrightarrow> c \<in> set (tl s)"
proof (cases s)
  case Nil
  then show "0 < lastIndexOf s c \<Longrightarrow> c \<in> set (tl s)" by simp
next
  case (Cons x xs)
  assume pos: "0 < lastIndexOf s c"
  have "0 \<le> lastIndexOf xs c"
  proof (rule ccontr)
    assume "\<not> 0 \<le> lastIndexOf xs c"
    then have "lastIndexOf s c \<le> 0" using Cons by (simp add: Let_def)
    with pos show False by simp
  qed
  then show "c \<in> set (tl s)" using Cons lastIndexOf_nonneg_mem by simp
qed

lemma startsWith_at: "startsWith s ''@'' = (s \<noteq> [] \<and> hd s = CHR ''@'')"
  by (cases s) auto

lemma startsWith_iff: "startsWith s p = (\<exists>r. s = p @ r)"
  by (induction s p rule: startsWith.induct) auto

lemma replace_first_absent_prefix:
  "c \<notin> set xs \<Longrightarrow> replace_first c r (xs @ c # ys) = xs @ r @ ys"
  by (induction xs) auto

lemma join_with_snoc:
  "join_with sep (xs @ [s]) = (if xs = [] then s else join_with sep xs @ sep @ s)"
  by (induction sep xs rule: join_with.induct) auto

lemma split_at_first:
  assumes "c \<notin> set a" "c \<notin> set a'" "a @ c # b = a' @ c # b'"
  shows "a = a' \<and> b = b'"
proof -
  have "\<forall>x \<in> set a. x \<noteq> c" and "\<forall>x \<in> set a'. x \<noteq> c" using assms(1,2) by auto
  then have "takeWhile (\<lambda>x. x \<noteq> c) (a @ c # b) = a"
    and "takeWhile (\<lambda>x. x \<noteq> c) (a' @ c # b') = a'"
    by (simp_all add: takeWhile_tail)
  then have "a = a'" using assms(3) by simp
  then show ?thesis using assms(3) by simp
qed

lemma split_at_last:
  assumes "c \<notin> set b" "c \<notin> set b'" "a @ c # b = a' @ c # b'"
  shows "a = a' \<and> b = b'"
proof -
  have "rev b @ c # rev a = rev b' @ c # rev a'"
    using arg_cong [OF assms(3), of rev] by simp
  then have "rev b = rev b' \<and> rev a = rev a'"
    using assms(1,2) by (intro split_at_first [of c]) auto
  then show ?thesis by simp
qed

section \<open>Parsing package specifications\<close>

lemma parsePackageSpec_split:
  assumes "CHR ''@'' \<notin> set X"
  shows "parsePackageSpec (CHR ''@'' # N @ CHR ''@'' # X)
           = \<lparr>name = CHR ''@'' # N, version = Some X\<rparr>"
proof -
  have "lastIndexOf ((CHR ''@'' # N) @ CHR ''@'' # X) (CHR ''@'') = int (length (CHR ''@'' # N))"
    using assms by (rule lastIndexOf_last_occurrence)
  then have idx: "lastIndexOf (CHR ''@'' # N @ CHR ''@'' # X) (CHR ''@'') = 1 + int (length N)"
    by simp
  show ?thesis
    unfolding parsePackageSpec_def idx
    by (simp add: Let_def substring_def substring_from_def nat_add_distrib)
qed

lemma parsePackageSpec_whole:
  assumes "\<not> (startsWith s ''@'' \<and> CHR ''@'' \<in> set (tl s))"
  shows "parsePackageSpec s = \<lparr>name = s, version = None\<rparr>"
proof (cases "lastIndexOf s (CHR ''@'') \<le> 0")
  case True
  then show ?thesis by (simp add: parsePackageSpec_def)
next
  case False
  then have pos: "0 < lastIndexOf s (CHR ''@'')" by simp
  then have tl: "CHR ''@'' \<in> set (tl s)" by (rule lastIndexOf_pos_tail)
  with assms have ns: "\<not> startsWith s ''@''" by simp
  have "s \<noteq> []" using tl by auto
  then have "hd (substring s 0 (lastIndexOf s (CHR ''@''))) = hd s"
    using pos by (cases s) (auto simp: substring_def nat_eq_iff take_Cons')
  moreover have "substring s 0 (lastIndexOf s (CHR ''@'')) \<noteq> []"
    using pos \<open>s \<noteq> []\<close> by (cases s) (auto simp: substring_def)
  ultimately have "\<not> startsWith (substring s 0 (lastIndexOf s (CHR ''@''))) ''@''"
    using ns \<open>s \<noteq> []\<close> by (simp add: startsWith_at)
  then show ?thesis using False by (simp add: parsePackageSpec_def Let_def)
qed

text \<open>
  C2 (as the code has it).  An input \<open>@scope/name@X\<close> whose version \<open>X\<close> holds no
  further \<open>@\<close> is split into the name \<open>@scope/name\<close> and the version \<open>X\<close>, whatever
  other characters (\<open>+\<close>, \<open>-\<close>, \<open>.\<close>) \<open>X\<close> holds; and an input that does not both start
  with \<open>@\<close> and hold a later \<open>@\<close> comes back whole as the name, with no version.
\<close>

theorem parsePackageSpec_scoped:
  "(CHR ''@'' \<notin> set X \<longrightarrow>
      parsePackageSpec (''@'' @ scope @ ''/'' @ nm @ ''@'' @ X)
        = \<lparr>name = ''@'' @ scope @ ''/'' @ nm, version = Some X\<rparr>)
   \<and> (\<not> (startsWith s ''@'' \<and> CHR ''@'' \<in> set (tl s)) \<longrightarrow>
        parsePackageSpec s = \<lparr>name = s, version = None\<rparr>)"
proof (intro conjI impI)
  assume "CHR ''@'' \<notin> set X"
  then show "parsePackageSpec (''@'' @ scope @ ''/'' @ nm @ ''@'' @ X)
        = \<lparr>name = ''@'' @ scope @ ''/'' @ nm, version = Some X\<rparr>"
    using parsePackageSpec_split [of X "scope @ ''/'' @ nm"] by simp
next
  assume "\<not> (startsWith s ''@'' \<and> CHR ''@'' \<in> set (tl s))"
  then show "parsePackageSpec s = \<lparr>name = s, version = None\<rparr>"
    by (rule parsePackageSpec_whole)
qed

theorem parsePackageSpec_scoped_witness:
  "parsePackageSpec ''@scope/name@1.0.0-beta.1+build.123''
      = \<lparr>name = ''@scope/name'', version = Some ''1.0.0-beta.1+build.123''\<rparr>
   \<and> parsePackageSpec ''unscoped@1.0.0'' = \<lparr>name = ''unscoped@1.0.0'', version = None\<rparr>"
  using parsePackageSpec_scoped [of "''1.0.0-beta.1+build.123''" "''scope''" "''name''" "''unscoped@1.0.0''"]
  by simp

text \<open>
  C2 as the specification words it fails where the version holds an \<open>@\<close>: the split is
  at the last \<open>@\<close> of the input, and what comes before it goes to the name.
\<close>

theorem parsePackageSpec_at_in_version:
  "parsePackageSpec ''@scope/name@1.0.0@beta''
     \<noteq> \<lparr>name = ''@scope/name'', version = Some ''1.0.0@beta''\<rparr>"
  by (simp add: parsePackageSpec_def Let_def substring_def substring_from_def)

section \<open>The cache directory\<close>

lemma split_on_nonempty: "split_on c s \<noteq> []"
  by (induction s) (auto split: list.splits)

lemma split_on_single: "c \<notin> set s \<Longrightarrow> split_on c s = [s]"
  by (induction s) auto

lemma split_on_append:
  "c \<notin> set s \<Longrightarrow> split_on c (b @ c # s) = split_on c b @ [s]"
proof (induction b)
  case Nil
  then show ?case by (simp add: split_on_single)
next
  case (Cons x b)
  then show ?case
    using split_on_nonempty [of c b] by (cases "split_on c b") auto
qed

lemma normalizeString_snoc:
  assumes "plain_segment s"
  shows "normalizeString (b @ CHR ''/'' # s) allow
           = (let res = foldl (normalize_segment allow) [] (split_on (CHR ''/'') b)
              in if res = [] then s else join_with ''/'' res @ ''/'' @ s)"
proof -
  have sp: "split_on (CHR ''/'') (b @ CHR ''/'' # s) = split_on (CHR ''/'') b @ [s]"
    using assms by (simp add: split_on_append plain_segment_def)
  have st: "normalize_segment allow res s = res @ [s]" for res
    using assms by (simp add: normalize_segment_def plain_segment_def)
  show ?thesis
    unfolding normalizeString_def sp by (simp add: st join_with_snoc Let_def)
qed

lemma path_normalize_plain: "plain_segment s \<Longrightarrow> path_normalize s = s"
proof -
  assume p: "plain_segment s"
  then have ne: "s \<noteq> []" and ns: "CHR ''/'' \<notin> set s" by (auto simp: plain_segment_def)
  have h: "hd s \<noteq> CHR ''/''" using ne ns by (cases s) auto
  have l: "last s \<noteq> CHR ''/''" using ns last_in_set [OF ne] by metis
  have "normalize_segment True [] s = [s]"
    using p by (simp add: normalize_segment_def plain_segment_def)
  then have "normalizeString s True = s"
    using ns by (simp add: normalizeString_def split_on_single)
  then show ?thesis using ne h l by (simp add: path_normalize_def Let_def)
qed

lemma join_plain_segment:
  assumes "plain_segment s"
  shows "join [b, s] = join_prefix b @ s"
proof (cases "b = []")
  case True
  have "s \<noteq> []" using assms by (simp add: plain_segment_def)
  then show ?thesis using True assms by (simp add: join_def join_prefix_def path_normalize_plain)
next
  case False
  have ne: "s \<noteq> []" and ns: "CHR ''/'' \<notin> set s" using assms by (auto simp: plain_segment_def)
  have l: "last s \<noteq> CHR ''/''" using ns last_in_set [OF ne] by metis
  have j: "join [b, s] = path_normalize (b @ CHR ''/'' # s)"
    using False ne by (simp add: join_def)
  have hdb: "hd (b @ CHR ''/'' # s) = hd b" using False by simp
  have lst: "last (b @ CHR ''/'' # s) = last s" using ne by simp
  show ?thesis
    unfolding j path_normalize_def hdb lst
    using False l ne
    by (simp add: normalizeString_snoc [OF assms] join_prefix_def Let_def)
qed

lemma safeName_scoped:
  "CHR ''/'' \<notin> set scope \<Longrightarrow> safeName (''@'' @ scope @ ''/'' @ nm) = scope @ ''-'' @ nm"
  using replace_first_absent_prefix [of "CHR ''/''" scope "''-''" nm] by (simp add: safeName_def)

lemma safeName_plain:
  "CHR ''/'' \<notin> set scope \<Longrightarrow> CHR ''/'' \<notin> set nm \<Longrightarrow> plain_segment (scope @ ''-'' @ nm)"
  by (auto simp: plain_segment_def append_eq_Cons_conv Cons_eq_append_conv)

lemma getCacheDir_scoped:
  assumes "CHR ''/'' \<notin> set scope" "CHR ''/'' \<notin> set nm"
  shows "getCacheDir home (''@'' @ scope @ ''/'' @ nm)
           = join_prefix (join [home, ''.mpak'', ''cache'']) @ scope @ ''-'' @ nm"
proof -
  have "getCacheDir home (''@'' @ scope @ ''/'' @ nm)
          = join [join [home, ''.mpak'', ''cache''], safeName (''@'' @ scope @ ''/'' @ nm)]"
    by (simp add: getCacheDir_def Let_def)
  also have "\<dots> = join [join [home, ''.mpak'', ''cache''], scope @ ''-'' @ nm]"
    unfolding safeName_scoped [OF assms(1)] ..
  also have "\<dots> = join_prefix (join [home, ''.mpak'', ''cache'']) @ scope @ ''-'' @ nm"
    using safeName_plain [OF assms] by (rule join_plain_segment)
  finally show ?thesis .
qed

text \<open>
  C3 (as the code has it).  Take two scoped names \<open>@scope1/name1\<close> and
  \<open>@scope2/name2\<close>, where neither scope nor name holds a \<open>/\<close>.  For every home
  directory, their cache directories are the same exactly when \<open>scope1-name1\<close> and
  \<open>scope2-name2\<close> are the same string.  So two distinct scoped names are kept apart
  unless moving the separator to another hyphen turns one into the other; in particular
  the cache directories of \<open>@nimblebraininc/echo\<close> and \<open>@nimblebraininc/Echo2\<close> differ,
  and so do those of \<open>@my-org/mcp-server\<close> and \<open>@my-org/mcp-client\<close>.
\<close>

theorem getCacheDir_injective:
  assumes "CHR ''/'' \<notin> set scope1" "CHR ''/'' \<notin> set name1"
      and "CHR ''/'' \<notin> set scope2" "CHR ''/'' \<notin> set name2"
  shows "(getCacheDir home (''@'' @ scope1 @ ''/'' @ name1)
            = getCacheDir home (''@'' @ scope2 @ ''/'' @ name2))
         = (scope1 @ ''-'' @ name1 = scope2 @ ''-'' @ name2)"
  unfolding getCacheDir_scoped [OF assms(1,2)] getCacheDir_scoped [OF assms(3,4)]
  by simp

theorem getCacheDir_injective_witness:
  "\<forall>home. getCacheDir home ''@nimblebraininc/echo'' \<noteq> getCacheDir home ''@nimblebraininc/Echo2''
         \<and> getCacheDir home ''@my-org/mcp-server'' \<noteq> getCacheDir home ''@my-org/mcp-client''
         \<and> getCacheDir home ''@a-b/c'' = getCacheDir home ''@a/b-c''"
proof
  fix home
  have a: "getCacheDir home ''@nimblebraininc/echo'' \<noteq> getCacheDir home ''@nimblebraininc/Echo2''"
    using getCacheDir_injective
            [of "''nimblebraininc''" "''echo''" "''nimblebraininc''" "''Echo2''" home]
    by simp
  have b: "getCacheDir home ''@my-org/mcp-server'' \<noteq> getCacheDir home ''@my-org/mcp-client''"
    using getCacheDir_injective
            [of "''my-org''" "''mcp-server''" "''my-org''" "''mcp-client''" home]
    by simp
  have c: "getCacheDir home ''@a-b/c'' = getCacheDir home ''@a/b-c''"
    using getCacheDir_injective [of "''a-b''" "''c''" "''a''" "''b-c''" home]
    by simp
  show "getCacheDir home ''@nimblebraininc/echo'' \<noteq> getCacheDir home ''@nimblebraininc/Echo2''
         \<and> getCacheDir home ''@my-org/mcp-server'' \<noteq> getCacheDir home ''@my-org/mcp-client''
         \<and> getCacheDir home ''@a-b/c'' = getCacheDir home ''@a/b-c''"
    using a b c by blast
qed

text \<open>
  Two consequences.  Distinct scoped names whose scopes hold no hyphen, or whose names
  hold no hyphen, have distinct cache directories; and so do distinct scoped names of
  one scope, or of one name.
\<close>

lemma getCacheDir_injective_no_hyphen:
  assumes "CHR ''/'' \<notin> set scope1" "CHR ''/'' \<notin> set name1"
      and "CHR ''/'' \<notin> set scope2" "CHR ''/'' \<notin> set name2"
      and "(CHR ''-'' \<notin> set scope1 \<and> CHR ''-'' \<notin> set scope2)
           \<or> (CHR ''-'' \<notin> set name1 \<and> CHR ''-'' \<notin> set name2)"
      and "getCacheDir home (''@'' @ scope1 @ ''/'' @ name1)
             = getCacheDir home (''@'' @ scope2 @ ''/'' @ name2)"
  shows "scope1 = scope2 \<and> name1 = name2"
proof -
  have "join_prefix (join [home, ''.mpak'', ''cache'']) @ scope1 @ ''-'' @ name1
          = join_prefix (join [home, ''.mpak'', ''cache'']) @ scope2 @ ''-'' @ name2"
    using assms(6)
    unfolding getCacheDir_scoped [OF assms(1,2)] getCacheDir_scoped [OF assms(3,4)] .
  then have "scope1 @ CHR ''-'' # name1 = scope2 @ CHR ''-'' # name2" by simp
  then show ?thesis
    using assms(5) split_at_first [of "CHR ''-''" scope1 scope2 name1 name2]
      split_at_last [of "CHR ''-''" name1 name2 scope1 scope2]
    by blast
qed

lemma getCacheDir_injective_same_part:
  assumes "CHR ''/'' \<notin> set scope1" "CHR ''/'' \<notin> set name1"
      and "CHR ''/'' \<notin> set scope2" "CHR ''/'' \<notin> set name2"
      and "scope1 = scope2 \<or> name1 = name2"
      and "getCacheDir home (''@'' @ scope1 @ ''/'' @ name1)
             = getCacheDir home (''@'' @ scope2 @ ''/'' @ name2)"
  shows "scope1 = scope2 \<and> name1 = name2"
proof -
  have "join_prefix (join [home, ''.mpak'', ''cache'']) @ scope1 @ ''-'' @ name1
          = join_prefix (join [home, ''.mpak'', ''cache'']) @ scope2 @ ''-'' @ name2"
    using assms(6)
    unfolding getCacheDir_scoped [OF assms(1,2)] getCacheDir_scoped [OF assms(3,4)] .
  then have "scope1 @ ''-'' @ name1 = scope2 @ ''-'' @ name2" by simp
  then show ?thesis using assms(5) by auto
qed

text \<open>
  C3 as the specification words it fails where a hyphen can sit on either side of the
  separator: two distinct scoped names share one cache directory.
\<close>

theorem getCacheDir_collision:
  "''@a-b/c'' \<noteq> ''@a/b-c''
   \<and> getCacheDir ''/home/user'' ''@a-b/c'' = getCacheDir ''/home/user'' ''@a/b-c''"
  by (simp add: getCacheDir_def safeName_def join_def path_normalize_def normalizeString_def
        normalize_segment_def Let_def)

section \<open>Substitution of user configuration\<close>

lemma match_user_config_Some:
  "match_user_config s = Some (key, rest) \<longleftrightarrow>
     key \<noteq> [] \<and> CHR ''}'' \<notin> set key \<and> s = ''${user_config.'' @ key @ ''}'' @ rest"
proof
  assume m: "match_user_config s = Some (key, rest)"
  then have sw: "startsWith s ''${user_config.''"
    by (auto simp: match_user_config_def split: if_splits)
  then obtain r where s: "s = ''${user_config.'' @ r" by (auto simp: startsWith_iff)
  have dr: "drop 14 s = r" by (simp add: s)
  let ?P = "\<lambda>c. c \<noteq> CHR ''}''"
  from m sw have k: "key = takeWhile ?P r" and ne: "key \<noteq> []"
    and dne: "dropWhile ?P r \<noteq> []" and rest: "rest = tl (dropWhile ?P r)"
    unfolding match_user_config_def dr by (auto simp: Let_def split: if_splits)
  have "hd (dropWhile ?P r) = CHR ''}''" using dne hd_dropWhile [of ?P r] by auto
  then have "dropWhile ?P r = CHR ''}'' # rest" using dne rest by (cases "dropWhile ?P r") auto
  then have "r = key @ CHR ''}'' # rest" using takeWhile_dropWhile_id [of ?P r] k by simp
  moreover have "CHR ''}'' \<notin> set key" using k by (auto dest: set_takeWhileD)
  ultimately show "key \<noteq> [] \<and> CHR ''}'' \<notin> set key \<and> s = ''${user_config.'' @ key @ ''}'' @ rest"
    using ne s by simp
next
  assume a: "key \<noteq> [] \<and> CHR ''}'' \<notin> set key \<and> s = ''${user_config.'' @ key @ ''}'' @ rest"
  let ?P = "\<lambda>c. c \<noteq> CHR ''}''"
  have all: "\<And>x. x \<in> set key \<Longrightarrow> ?P x" using a by auto
  have tw: "takeWhile ?P (key @ CHR ''}'' # rest) = key"
    using all by (simp add: takeWhile_append2)
  have dw: "dropWhile ?P (key @ CHR ''}'' # rest) = CHR ''}'' # rest"
    using all by (simp add: dropWhile_append2)
  have "drop 14 s = key @ CHR ''}'' # rest" using a by simp
  moreover have "startsWith s ''${user_config.''" using a by (simp add: startsWith_iff)
  ultimately show "match_user_config s = Some (key, rest)"
    using a tw dw by (simp add: match_user_config_def Let_def del: startsWith.simps)
qed

lemma take_matched: "s = p @ r \<Longrightarrow> take (length s - length r) s = p"
  by simp

lemma substituteUserConfig_reference:
  assumes "key \<noteq> []" "CHR ''}'' \<notin> set key"
  shows "substituteUserConfig (''${user_config.'' @ key @ ''}'' @ rest) m
           = (case get_property m key of
                Some v \<Rightarrow> to_string v
              | None \<Rightarrow> ''${user_config.'' @ key @ ''}'')
               @ substituteUserConfig rest m"
proof -
  let ?s = "''${user_config.'' @ key @ ''}'' @ rest"
  have mt: "match_user_config ?s = Some (key, rest)"
    using assms by (simp add: match_user_config_Some)
  obtain c cs where s: "?s = c # cs" by simp
  have tk: "take (length ?s - length rest) ?s = ''${user_config.'' @ key @ ''}''"
    by (rule take_matched) simp
  have "substituteUserConfig ?s m
          = (case get_property m key of
               Some v \<Rightarrow> to_string v
             | None \<Rightarrow> take (length ?s - length rest) ?s)
              @ substituteUserConfig rest m"
    using mt unfolding s by simp
  then show ?thesis unfolding tk .
qed

lemma substituteUserConfig_literal:
  "match_user_config (c # cs) = None \<Longrightarrow>
     substituteUserConfig (c # cs) m = c # substituteUserConfig cs m"
  by simp

lemma has_placeholder_iff:
  "has_placeholder s \<longleftrightarrow>
     (\<exists>pre key post. key \<noteq> [] \<and> CHR ''}'' \<notin> set key
        \<and> s = pre @ ''${user_config.'' @ key @ ''}'' @ post)"
proof (induction s)
  case Nil
  then show ?case by simp
next
  case (Cons c cs)
  show ?case
  proof
    assume "has_placeholder (c # cs)"
    then consider (here) "match_user_config (c # cs) \<noteq> None" | (later) "has_placeholder cs"
      by auto
    then show "\<exists>pre key post. key \<noteq> [] \<and> CHR ''}'' \<notin> set key
        \<and> c # cs = pre @ ''${user_config.'' @ key @ ''}'' @ post"
    proof cases
      case here
      then obtain key rest where "match_user_config (c # cs) = Some (key, rest)" by auto
      then have "key \<noteq> [] \<and> CHR ''}'' \<notin> set key
          \<and> c # cs = [] @ ''${user_config.'' @ key @ ''}'' @ rest"
        by (simp add: match_user_config_Some)
      then show ?thesis by blast
    next
      case later
      then obtain pre key post where k: "key \<noteq> []" "CHR ''}'' \<notin> set key"
        and cs: "cs = pre @ ''${user_config.'' @ key @ ''}'' @ post"
        using Cons.IH by blast
      have "c # cs = (c # pre) @ ''${user_config.'' @ key @ ''}'' @ post" using cs by simp
      with k show ?thesis by blast
    qed
  next
    assume "\<exists>pre key post. key \<noteq> [] \<and> CHR ''}'' \<notin> set key
        \<and> c # cs = pre @ ''${user_config.'' @ key @ ''}'' @ post"
    then obtain pre key post where k: "key \<noteq> []" "CHR ''}'' \<notin> set key"
      and s: "c # cs = pre @ ''${user_config.'' @ key @ ''}'' @ post" by blast
    show "has_placeholder (c # cs)"
    proof (cases pre)
      case Nil
      then have "match_user_config (c # cs) = Some (key, post)"
        using k s by (simp add: match_user_config_Some)
      then show ?thesis by simp
    next
      case (Cons p ps)
      then have "cs = ps @ ''${user_config.'' @ key @ ''}'' @ post" using s by simp
      then have "has_placeholder cs" using k Cons.IH by blast
      then show ?thesis by simp
    qed
  qed
qed

lemma substituteUserConfig_no_placeholder:
  "\<not> has_placeholder s \<Longrightarrow> substituteUserConfig s m = s"
proof (induction s)
  case Nil
  then show ?case by simp
next
  case (Cons c cs)
  from Cons.prems have n: "match_user_config (c # cs) = None"
    by (cases "match_user_config (c # cs)") auto
  from Cons.prems have "\<not> has_placeholder cs" by simp
  then have "substituteUserConfig cs m = cs" by (rule Cons.IH)
  then show ?case using n by simp
qed

lemma substituteUserConfig_absent:
  "(\<forall>key \<in> set (placeholder_keys s). get_property m key = None) \<Longrightarrow>
     substituteUserConfig s m = s"
proof (induction s m rule: substituteUserConfig.induct)
  case (1 m)
  then show ?case by simp
next
  case (2 c cs m)
  show ?case
  proof (cases "match_user_config (c # cs)")
    case None
    then have "\<forall>key \<in> set (placeholder_keys cs). get_property m key = None"
      using "2.prems" by simp
    then have "substituteUserConfig cs m = cs" by (rule "2.IH"(1) [OF None])
    then show ?thesis using None by simp
  next
    case (Some kr)
    obtain key rest where kr: "kr = (key, rest)" by (cases kr)
    have mt: "match_user_config (c # cs) = Some (key, rest)" using Some kr by simp
    then have s: "c # cs = ''${user_config.'' @ key @ ''}'' @ rest"
      by (simp add: match_user_config_Some)
    have mk: "get_property m key = None" using "2.prems" mt by simp
    have "\<forall>key' \<in> set (placeholder_keys rest). get_property m key' = None"
      using "2.prems" mt by simp
    then have ih: "substituteUserConfig rest m = rest" by (rule "2.IH"(2) [OF mt refl])
    have s2: "c # cs = (''${user_config.'' @ key @ ''}'') @ rest" using s by simp
    have "take (length (c # cs) - length rest) (c # cs) @ rest = c # cs"
      unfolding take_matched [OF s2] by (rule s2 [symmetric])
    then show ?thesis using mt mk ih by simp
  qed
qed

lemma get_property_own: "m key = Some v \<Longrightarrow> get_property m key = Some v"
  by (simp add: get_property_def)

lemma get_property_None:
  "get_property m key = None \<longleftrightarrow> m key = None \<and> key \<notin> set object_prototype_members"
  by (simp add: get_property_def split: option.splits)

lemma get_property_inherited:
  "m key = None \<Longrightarrow> key \<in> set object_prototype_members \<Longrightarrow>
     get_property m key = Some (Inherited key)"
  by (simp add: get_property_def)

lemma substituteEnvVars_foldl_dom:
  "dom (foldl (\<lambda>result (key, v). set_property result key (f v)) acc kvs)
     = dom acc \<union> (fst ` set kvs - {''__proto__''})"
  by (induction kvs arbitrary: acc) (auto simp: set_property_def split: prod.splits if_splits)

lemma substituteEnvVars_foldl_keep:
  "k \<notin> fst ` set kvs \<Longrightarrow>
     foldl (\<lambda>result (key, v). set_property result key (f v)) acc kvs k = acc k"
  by (induction kvs arbitrary: acc) (auto simp: set_property_def split: prod.splits)

lemma substituteEnvVars_foldl_value:
  "distinct (map fst kvs) \<Longrightarrow> (k, v) \<in> set kvs \<Longrightarrow> k \<noteq> ''__proto__'' \<Longrightarrow>
     foldl (\<lambda>result (key, v). set_property result key (f v)) acc kvs k = Some (f v)"
proof (induction kvs arbitrary: acc)
  case Nil
  then show ?case by simp
next
  case (Cons e kvs)
  obtain k' v' where e: "e = (k', v')" by (cases e)
  show ?case
  proof (cases "(k, v) = e")
    case True
    have "fst e \<notin> fst ` set kvs" using Cons.prems(1) by simp
    moreover have "fst e = k" using True by auto
    ultimately have "k \<notin> fst ` set kvs" by simp
    then have "foldl (\<lambda>result (key, v). set_property result key (f v))
                 (set_property acc k (f v)) kvs k
                 = (set_property acc k (f v)) k"
      by (rule substituteEnvVars_foldl_keep)
    moreover have "(set_property acc k (f v)) k = Some (f v)"
      using Cons.prems(3) by (simp add: set_property_def)
    ultimately show ?thesis unfolding True [symmetric]
      by (simp only: foldl.simps prod.case)
  next
    case False
    then have "(k, v) \<in> set kvs" using Cons.prems(2) by simp
    moreover have "distinct (map fst kvs)" using Cons.prems(1) by simp
    ultimately show ?thesis using Cons.IH Cons.prems(3) by simp
  qed
qed

text \<open>
  \<^verbatim>\<open>substituteEnvVars\<close> keeps the keys of the environment other than \<open>__proto__\<close>, and
  puts under each of them the substituted value.
\<close>

lemma substituteEnvVars_dom:
  "dom (substituteEnvVars (Some kvs) m) = fst ` set kvs - {''__proto__''}"
  by (simp add: substituteEnvVars_def substituteEnvVars_foldl_dom)

lemma substituteEnvVars_value:
  "distinct (map fst kvs) \<Longrightarrow> (k, v) \<in> set kvs \<Longrightarrow> k \<noteq> ''__proto__'' \<Longrightarrow>
     substituteEnvVars (Some kvs) m k = Some (substituteUserConfig v m)"
  unfolding substituteEnvVars_def option.case
  by (rule substituteEnvVars_foldl_value)

text \<open>
  What the substitution does at a key that is neither an own key of the map nor a member
  of \<^verbatim>\<open>Object.prototype\<close>, and at an own key: the reference stays, or the own value
  takes its place.  A string without references is returned as it is.
\<close>

lemma substituteUserConfig_own_or_unknown:
  assumes "key \<noteq> []" "CHR ''}'' \<notin> set key"
  shows "(m key = None \<and> key \<notin> set object_prototype_members \<longrightarrow>
            substituteUserConfig (''${user_config.'' @ key @ ''}'' @ rest) m
              = ''${user_config.'' @ key @ ''}'' @ substituteUserConfig rest m)
       \<and> (\<forall>v. m key = Some (JSString v) \<longrightarrow>
            substituteUserConfig (''${user_config.'' @ key @ ''}'' @ rest) m
              = v @ substituteUserConfig rest m)"
  using substituteUserConfig_reference [OF assms, of rest m]
  by (auto simp: get_property_def)

lemma substituteUserConfig_without_references:
  assumes "\<not> (\<exists>pre k post. k \<noteq> [] \<and> CHR ''}'' \<notin> set k
              \<and> t = pre @ ''${user_config.'' @ k @ ''}'' @ post)"
  shows "substituteUserConfig t m = t"
proof -
  have "\<not> has_placeholder t" using assms has_placeholder_iff [of t] by blast
  then show ?thesis by (rule substituteUserConfig_no_placeholder)
qed

text \<open>
  C7, at a reference whose key names a member of \<^verbatim>\<open>Object.prototype\<close>.  The map is
  empty, so no key is present in it, and the reference \<open>${user_config.constructor}\<close>
  should stay as it is.  The lookup \<^verbatim>\<open>userConfigValues[key]\<close> finds the inherited
  \<^verbatim>\<open>constructor\<close>, which is not \<^verbatim>\<open>undefined\<close>, and the reference is replaced by
  the text of that function.  In the same way an entry of the environment under the key
  \<open>__proto__\<close> is lost: the assignment \<^verbatim>\<open>result[key] = ...\<close> reaches the inherited
  setter, and the result has no entry for it.
\<close>

theorem substituteUserConfig_replaces_inherited_member:
  "substituteUserConfig ''${user_config.constructor}'' Map.empty
     = ''function Object() { [native code] }''
   \<and> substituteUserConfig ''--flag=${user_config.toString}'' [''other'' \<mapsto> JSString ''x'']
       = ''--flag=function toString() { [native code] }''
   \<and> substituteEnvVars (Some [(''__proto__'', ''${user_config.api_key}'')])
        [''api_key'' \<mapsto> JSString ''secret''] = Map.empty"
  by (simp add: substituteEnvVars_def set_property_def match_user_config_def get_property_def
        object_prototype_members_def)

section \<open>The cache-validity decision\<close>








section \<open>Resolution of user configuration\<close>

lemma gather_step_eq:
  "gather_step upper sc pe (r, m) (k, f)
     = (case resolved_value upper sc pe k f of
          Some x \<Rightarrow> (set_property r k x, m)
        | None \<Rightarrow> if required f = Some True then (r, m @ [(k, f)]) else (r, m))"
  by (simp add: gather_step_def resolved_value_def Let_def split: option.splits)

lemma gather_foldl_other:
  "k \<notin> fst ` set uc \<Longrightarrow> fst (foldl (gather_step upper sc pe) (r, m) uc) k = r k"
proof (induction uc arbitrary: r m)
  case Nil
  then show ?case by simp
next
  case (Cons e uc)
  obtain k' f' where e: "e = (k', f')" by (cases e)
  have ne: "k' \<noteq> k" and rest: "k \<notin> fst ` set uc" using Cons.prems e by auto
  obtain r' m' where st: "gather_step upper sc pe (r, m) (k', f') = (r', m')"
    by (cases "gather_step upper sc pe (r, m) (k', f')")
  have "r' k = r k"
    using st ne by (auto simp: gather_step_eq set_property_def split: option.splits if_splits)
  moreover have "fst (foldl (gather_step upper sc pe) (r', m') uc) k = r' k"
    using rest by (rule Cons.IH)
  ultimately show ?case by (simp add: e st)
qed

lemma gather_foldl_at:
  "distinct (map fst uc) \<Longrightarrow> (k, f) \<in> set uc \<Longrightarrow> k \<noteq> ''__proto__'' \<Longrightarrow>
     fst (foldl (gather_step upper sc pe) (r, m) uc) k
       = (case resolved_value upper sc pe k f of Some x \<Rightarrow> Some x | None \<Rightarrow> r k)"
proof (induction uc arbitrary: r m)
  case Nil
  then show ?case by simp
next
  case (Cons e uc)
  obtain k' f' where e: "e = (k', f')" by (cases e)
  obtain r' m' where st: "gather_step upper sc pe (r, m) (k', f') = (r', m')"
    by (cases "gather_step upper sc pe (r, m) (k', f')")
  show ?case
  proof (cases "(k, f) = e")
    case True
    then have kk: "k' = k" "f' = f" using e by auto
    have "k \<notin> fst ` set uc" using Cons.prems(1) e kk by auto
    then have "fst (foldl (gather_step upper sc pe) (r', m') uc) k = r' k"
      by (rule gather_foldl_other)
    moreover have "r' k = (case resolved_value upper sc pe k f of Some x \<Rightarrow> Some x | None \<Rightarrow> r k)"
      using st kk Cons.prems(3)
      by (auto simp: gather_step_eq set_property_def split: option.splits if_splits)
    ultimately show ?thesis by (simp add: e st)
  next
    case False
    then have mem: "(k, f) \<in> set uc" using Cons.prems(2) by simp
    have d: "distinct (map fst uc)" using Cons.prems(1) by simp
    have "k' \<noteq> k" using Cons.prems(1) mem e by (auto simp: image_iff)
    then have "r' k = r k"
      using st by (auto simp: gather_step_eq set_property_def split: option.splits if_splits)
    moreover have "fst (foldl (gather_step upper sc pe) (r', m') uc) k
                     = (case resolved_value upper sc pe k f of Some x \<Rightarrow> Some x | None \<Rightarrow> r' k)"
      using d mem Cons.prems(3) by (rule Cons.IH)
    ultimately show ?thesis by (simp add: e st split: option.splits)
  qed
qed

lemma gather_foldl_proto:
  "fst (foldl (gather_step upper sc pe) (r, m) uc) ''__proto__'' = r ''__proto__''"
proof (induction uc arbitrary: r m)
  case Nil
  then show ?case by simp
next
  case (Cons e uc)
  obtain k' f' where e: "e = (k', f')" by (cases e)
  obtain r' m' where st: "gather_step upper sc pe (r, m) (k', f') = (r', m')"
    by (cases "gather_step upper sc pe (r, m) (k', f')")
  have "r' ''__proto__'' = r ''__proto__''"
    using st by (auto simp: gather_step_eq set_property_def split: option.splits if_splits)
  then show ?case by (simp add: e st Cons.IH)
qed

lemma gather_foldl_missing:
  "snd (foldl (gather_step upper sc pe) (r, m) uc)
     = m @ filter (\<lambda>(k, f). resolved_value upper sc pe k f = None \<and> required f = Some True) uc"
proof (induction uc arbitrary: r m)
  case Nil
  then show ?case by simp
next
  case (Cons e uc)
  obtain k f where e: "e = (k, f)" by (cases e)
  show ?case
    unfolding e foldl.simps gather_step_eq
    by (cases "resolved_value upper sc pe k f") (simp_all add: Cons.IH)
qed

text \<open>
  The loop, field by field: the result object holds under a key other than \<open>__proto__\<close>
  the value found for the field, it never has an own entry under \<open>__proto__\<close>, and the
  missing required fields are those for which no value is found, in the order of the
  manifest.
\<close>

lemma gather_loop_at:
  "distinct (map fst uc) \<Longrightarrow> (k, f) \<in> set uc \<Longrightarrow> k \<noteq> ''__proto__'' \<Longrightarrow>
     fst (gather_loop upper sc pe uc) k = resolved_value upper sc pe k f"
  unfolding gather_loop_def
  by (simp add: gather_foldl_at split: option.splits)

lemma gather_loop_proto: "fst (gather_loop upper sc pe uc) ''__proto__'' = None"
  unfolding gather_loop_def by (simp add: gather_foldl_proto)

lemma gather_loop_missing:
  "snd (gather_loop upper sc pe uc)
     = filter (\<lambda>(k, f). resolved_value upper sc pe k f = None \<and> required f = Some True) uc"
  unfolding gather_loop_def by (simp add: gather_foldl_missing)

lemma prompt_loop_keeps:
  "k \<notin> fst ` set missing \<Longrightarrow>
   prompt_loop lower ans packageName missing result n evs = (evs', GatherValues r) \<Longrightarrow>
   r k = result k"
proof (induction missing arbitrary: result n evs)
  case Nil
  then show ?case by simp
next
  case (Cons kf missing)
  obtain key fld where kf: "kf = (key, fld)" by (cases kf)
  obtain evs1 v where p: "promptForValue fld key (ans n) = (evs1, v)"
    by (cases "promptForValue fld key (ans n)")
  have ne: "key \<noteq> k" and rest: "k \<notin> fst ` set missing" using Cons.prems(1) kf by auto
  have up: "(set_property result key (JSString v)) k = result k"
    using ne by (simp add: set_property_def)
  from Cons.prems(2) have
    "\<exists>n' evs''. prompt_loop lower ans packageName missing (set_property result key (JSString v))
                   n' evs''
                   = (evs', GatherValues r)"
    unfolding kf prompt_loop.simps p Let_def prod.case
    by (auto split: if_splits)
  then obtain n' evs'' where
    "prompt_loop lower ans packageName missing (set_property result key (JSString v)) n' evs''
       = (evs', GatherValues r)"
    by blast
  then have "r k = (set_property result key (JSString v)) k" using rest Cons.IH by blast
  then show ?case using up by simp
qed

lemma gatherUserConfigValues_returned:
  assumes "gatherUserConfigValues upper lower (Inr stored) penv tty ans packageName uc
             = (evs, GatherValues vals)"
      and "k \<notin> fst ` set (snd (gather_loop upper (stored_of stored) penv uc))"
  shows "vals k = fst (gather_loop upper (stored_of stored) penv uc) k"
proof -
  obtain result missing where g: "gather_loop upper (stored_of stored) penv uc = (result, missing)"
    by (cases "gather_loop upper (stored_of stored) penv uc")
  have k: "k \<notin> fst ` set missing" using assms(2) g by simp
  show ?thesis
  proof (cases "missing = []")
    case True
    then have "vals = result"
      using assms(1) g by (simp add: gatherUserConfigValues_def Let_def)
    then show ?thesis using g by simp
  next
    case False
    then have "prompt_loop lower ans packageName missing result 0
                 [StderrWrite (''=> Package requires configuration:'' @ [CHR 0x0A])]
                 = (evs, GatherValues vals)"
      using assms(1) g
      by (simp add: gatherUserConfigValues_def Let_def split: if_splits)
    then have "vals k = result k" using k prompt_loop_keeps by blast
    then show ?thesis using g by simp
  qed
qed

lemma resolved_not_missing:
  assumes "distinct (map fst uc)" "(k, f) \<in> set uc"
      and "resolved_value upper sc pe k f \<noteq> None \<or> required f \<noteq> Some True"
  shows "k \<notin> fst ` set (snd (gather_loop upper sc pe uc))"
proof
  assume "k \<in> fst ` set (snd (gather_loop upper sc pe uc))"
  then obtain f' where m: "(k, f') \<in> set (snd (gather_loop upper sc pe uc))" by auto
  then have mem: "(k, f') \<in> set uc"
    and miss: "resolved_value upper sc pe k f' = None \<and> required f' = Some True"
    by (auto simp: gather_loop_missing)
  have "f' = f"
    using assms(1,2) mem by (meson eq_key_imp_eq_value)
  with miss assms(3) show False by simp
qed

text \<open>
  The order of the sources, for a field whose key names no member of
  \<^verbatim>\<open>Object.prototype\<close>: the loop of \<^verbatim>\<open>gatherUserConfigValues\<close> takes the stored value
  when there is one, whatever the environment and the default say; without a stored
  value it takes the value of \<open>MPAK_CONFIG_\<close> followed by the upper-cased key, whatever
  the default says; without either it takes the default as a string.  A value found this
  way is the value in the object that \<^verbatim>\<open>gatherUserConfigValues\<close> returns.
\<close>

lemma gather_loop_priority:
  assumes "distinct (map fst userConfig)" "(key, fld) \<in> set userConfig"
      and "key \<notin> set object_prototype_members"
  shows "(\<forall>sv. stored_of stored key = Some sv \<longrightarrow>
            fst (gather_loop upper (stored_of stored) penv userConfig) key = Some sv)
       \<and> (\<forall>ev. stored_of stored key = None \<and> penv (''MPAK_CONFIG_'' @ upper key) = Some ev \<longrightarrow>
            fst (gather_loop upper (stored_of stored) penv userConfig) key = Some (JSString ev))
       \<and> (\<forall>d. stored_of stored key = None \<and> penv (''MPAK_CONFIG_'' @ upper key) = None
               \<and> default_value fld = Some d \<longrightarrow>
            fst (gather_loop upper (stored_of stored) penv userConfig) key
              = Some (JSString (String_of d)))
       \<and> (\<forall>evs vals.
            gatherUserConfigValues upper lower (Inr stored) penv tty ans packageName userConfig
              = (evs, GatherValues vals)
            \<and> (stored_of stored key \<noteq> None \<or> penv (''MPAK_CONFIG_'' @ upper key) \<noteq> None
                 \<or> default_value fld \<noteq> None) \<longrightarrow>
            vals key = fst (gather_loop upper (stored_of stored) penv userConfig) key)"
proof -
  have np: "key \<noteq> ''__proto__''" using assms(3) by (auto simp: object_prototype_members_def)
  have gp: "get_property (stored_of stored) key = stored_of stored key"
    using assms(3) by (simp add: get_property_def split: option.splits)
  have at: "fst (gather_loop upper (stored_of stored) penv userConfig) key
              = resolved_value upper (stored_of stored) penv key fld"
    using assms(1,2) np by (rule gather_loop_at)
  have ret: "vals key = fst (gather_loop upper (stored_of stored) penv userConfig) key"
    if g: "gatherUserConfigValues upper lower (Inr stored) penv tty ans packageName userConfig
             = (evs, GatherValues vals)"
    and r: "stored_of stored key \<noteq> None \<or> penv (''MPAK_CONFIG_'' @ upper key) \<noteq> None
              \<or> default_value fld \<noteq> None"
    for evs vals
  proof -
    have "resolved_value upper (stored_of stored) penv key fld \<noteq> None"
      using r by (auto simp: resolved_value_def gp split: option.splits)
    then have "key \<notin> fst ` set (snd (gather_loop upper (stored_of stored) penv userConfig))"
      using assms(1,2) resolved_not_missing by blast
    with g show ?thesis by (rule gatherUserConfigValues_returned)
  qed
  show ?thesis
    unfolding at
    using ret by (auto simp: resolved_value_def gp at)
qed

lemma ascii_upper_toString: "ascii_upper ''toString'' = ''TOSTRING''"
  by code_simp

lemma ascii_upper_proto: "ascii_upper ''__proto__'' = ''__PROTO__''"
  by code_simp

lemma ascii_upper_constructor: "ascii_upper ''constructor'' = ''CONSTRUCTOR''"
  by code_simp

lemma ascii_upper_api_key: "ascii_upper ''api_key'' = ''API_KEY''"
  by code_simp

text \<open>
  C6, at a field whose key names a member of \<^verbatim>\<open>Object.prototype\<close>.  A field
  \<open>toString\<close> has nothing stored; its variable \<open>MPAK_CONFIG_TOSTRING\<close> is set and it
  has a default.  The value from the environment should be taken.  The lookup
  \<^verbatim>\<open>storedConfig[key]\<close> finds the inherited \<^verbatim>\<open>toString\<close>, which is not
  \<^verbatim>\<open>undefined\<close>, so the loop takes that function as the stored value and looks no
  further.  A field \<open>__proto__\<close> has a stored value, a variable and a default.  The
  stored value should be taken.  The loop finds it, and the assignment
  \<^verbatim>\<open>result[key] = storedValue\<close> reaches the inherited setter: the object returned has
  no entry for the field.
\<close>

theorem inherited_member_taken_for_stored_value:
  "[''MPAK_CONFIG_TOSTRING'' \<mapsto> ''from-env''] (''MPAK_CONFIG_'' @ ascii_upper ''toString'')
     = Some ''from-env''
   \<and> gatherUserConfigValues ascii_upper ascii_lower (Inr None)
        [''MPAK_CONFIG_TOSTRING'' \<mapsto> ''from-env''] False (\<lambda>n. []) ''@acme/tool''
        [(''toString'', \<lparr>field_type = ''string'', title = None, description = None,
                          sensitive = None, required = Some True,
                          default_value = Some (DString ''from-default'')\<rparr>)]
       = ([], GatherValues [''toString'' \<mapsto> Inherited ''toString''])
   \<and> [''MPAK_CONFIG___PROTO__'' \<mapsto> ''from-env''] (''MPAK_CONFIG_'' @ ascii_upper ''__proto__'')
       = Some ''from-env''
   \<and> gatherUserConfigValues ascii_upper ascii_lower (Inr (Some [''__proto__'' \<mapsto> ''from-store'']))
        [''MPAK_CONFIG___PROTO__'' \<mapsto> ''from-env''] False (\<lambda>n. []) ''@acme/tool''
        [(''__proto__'', \<lparr>field_type = ''string'', title = None, description = None,
                           sensitive = None, required = Some True,
                           default_value = Some (DString ''from-default'')\<rparr>)]
       = ([], GatherValues Map.empty)"
  by (simp add: ascii_upper_toString ascii_upper_proto gatherUserConfigValues_def gather_loop_def
        gather_step_def stored_of_def get_property_def set_property_def
        object_prototype_members_def Let_def)

section \<open>Missing required configuration\<close>

lemma gatherUserConfigValues_fatal:
  assumes "snd (gather_loop upper (stored_of stored) penv userConfig) \<noteq> []"
  shows "gatherUserConfigValues upper lower (Inr stored) penv False ans packageName userConfig
           = ([StderrWrite (''=> Error: Missing required config: ''
                              @ join_with '', ''
                                  (map fst (snd (gather_loop upper (stored_of stored) penv userConfig)))
                              @ [CHR 0x0A]),
               StderrWrite (''=> Run '' @ [CHR 0x27] @ ''mpak config set '' @ packageName
                              @ '' <key>=<value>'' @ [CHR 0x27] @ '' to set values'' @ [CHR 0x0A]),
               StderrWrite (''=> Or set environment variables: ''
                              @ join_with '', ''
                                  (map (\<lambda>k. ''MPAK_CONFIG_'' @ upper k)
                                     (map fst (snd (gather_loop upper (stored_of stored) penv
                                                      userConfig))))
                              @ [CHR 0x0A])],
              GatherExit 1)"
proof -
  obtain result missing where g:
    "gather_loop upper (stored_of stored) penv userConfig = (result, missing)"
    by (cases "gather_loop upper (stored_of stored) penv userConfig")
  have ne: "missing \<noteq> []" using assms g by simp
  show ?thesis
    using g ne by (simp add: gatherUserConfigValues_def Let_def comp_def)
qed

text \<open>
  What the code does for missing required configuration.  Take a run without a terminal
  that gets as far as the manifest, and let \<open>missing\<close> be the fields of the manifest's
  user configuration that are marked required and for which the loop finds no value, in
  the order of the manifest.  When there is one, the run writes three lines to the error
  stream (the keys of \<open>missing\<close>; the \<^verbatim>\<open>mpak config set\<close> command; the environment
  variables to set) and exits with status 1.  Nothing else happens after the cache has
  been checked: no child is spawned.  A required field whose key names no member of
  \<^verbatim>\<open>Object.prototype\<close> and that has no stored value, no variable and no default is
  among them.
\<close>

lemma missing_required_config_exits:
  assumes "\<not> isTTY host"
      and "ensureCached host options (name (parsePackageSpec packageSpec))
             (version (parsePackageSpec packageSpec))
             (getCacheDir (homedir host) (name (parsePackageSpec packageSpec))) = (evs1, Inr pulled)"
      and "(if pulled then bundle_manifest host else cached_manifest host) = ManifestFile manifest"
      and "user_config manifest = Some userConfig"
      and "getPackageConfig host (name (parsePackageSpec packageSpec)) = Inr stored"
      and "missing = map fst (filter (\<lambda>(k, f).
                        resolved_value (toUpperCase host) (stored_of stored) (process_env host) k f
                          = None
                        \<and> required f = Some True) userConfig)"
      and "missing \<noteq> []"
  shows "handleRun host packageSpec options
               = (evs1 @ [NewConfigManager,
                    StderrWrite (''=> Error: Missing required config: ''
                                   @ join_with '', '' missing @ [CHR 0x0A]),
                    StderrWrite (''=> Run '' @ [CHR 0x27] @ ''mpak config set ''
                                   @ name (parsePackageSpec packageSpec)
                                   @ '' <key>=<value>'' @ [CHR 0x27] @ '' to set values'' @ [CHR 0x0A]),
                    StderrWrite (''=> Or set environment variables: ''
                                   @ join_with '', ''
                                       (map (\<lambda>k. ''MPAK_CONFIG_'' @ toUpperCase host k) missing)
                                   @ [CHR 0x0A])],
                  Exited 1)"
proof -
  let ?nm = "name (parsePackageSpec packageSpec)"
  have m: "missing = map fst (snd (gather_loop (toUpperCase host) (stored_of stored)
                                     (process_env host) userConfig))"
    using assms(6) by (simp add: gather_loop_missing)
  then have ne: "snd (gather_loop (toUpperCase host) (stored_of stored) (process_env host)
                        userConfig) \<noteq> []"
    using assms(7) by auto
  have uc: "userConfig \<noteq> []" using ne by (auto simp: gather_loop_missing)
  note g = gatherUserConfigValues_fatal [OF ne, of "toLowerCase host" "answers host" ?nm]
  show ?thesis
    using assms(1-5) uc g unfolding m by (simp add: handleRun_def Let_def)
qed

lemma missing_required_field_listed:
  assumes "(key, fld) \<in> set userConfig" "required fld = Some True"
      and "key \<notin> set object_prototype_members"
      and "stored_of stored key = None"
      and "penv (''MPAK_CONFIG_'' @ upper key) = None"
      and "default_value fld = None"
  shows "key \<in> set (map fst (filter (\<lambda>(k, f).
                        resolved_value upper (stored_of stored) penv k f = None
                        \<and> required f = Some True) userConfig))"
proof -
  have "resolved_value upper (stored_of stored) penv key fld = None"
    using assms(3-6) by (simp add: resolved_value_def get_property_def)
  then have "(key, fld) \<in> set (filter (\<lambda>(k, f).
                        resolved_value upper (stored_of stored) penv k f = None
                        \<and> required f = Some True) userConfig)"
    using assms(1,2) by simp
  then show ?thesis by force
qed

lemma example_parse:
  "parsePackageSpec ''@acme/tool'' = \<lparr>name = ''@acme/tool'', version = None\<rparr>"
  by (simp add: parsePackageSpec_def Let_def)

lemma example_cacheDir:
  "getCacheDir ''/home/user'' ''@acme/tool'' = ''/home/user/.mpak/cache/acme-tool''"
  by (simp add: getCacheDir_def safeName_def join_def path_normalize_def normalizeString_def
        normalize_segment_def Let_def)

lemma example_missing_api_key:
  "handleRun (example_host\<lparr>getPackageConfig := (\<lambda>n. Inr None)\<rparr>) ''@acme/tool'' \<lparr>update = False\<rparr>
     = ([NewConfigManager,
         StderrWrite (''=> Error: Missing required config: api_key'' @ [CHR 0x0A]),
         StderrWrite (''=> Run '' @ [CHR 0x27] @ ''mpak config set @acme/tool <key>=<value>''
                        @ [CHR 0x27] @ '' to set values'' @ [CHR 0x0A]),
         StderrWrite (''=> Or set environment variables: MPAK_CONFIG_API_KEY'' @ [CHR 0x0A])],
        Exited 1)"
proof -
  let ?h = "example_host\<lparr>getPackageConfig := (\<lambda>n. Inr None)\<rparr>"
  let ?f = "\<lparr>field_type = ''string'', title = Some ''API Token'', description = None,
             sensitive = Some True, required = Some True, default_value = None\<rparr>"
  have a: "\<not> isTTY ?h" by (simp add: example_host_def)
  have b: "ensureCached ?h \<lparr>update = False\<rparr> (name (parsePackageSpec ''@acme/tool''))
             (version (parsePackageSpec ''@acme/tool''))
             (getCacheDir (homedir ?h) (name (parsePackageSpec ''@acme/tool''))) = ([], Inr False)"
    by (simp add: example_parse ensureCached_def needsPull_from_cache_def example_host_def)
  have c: "(if False then bundle_manifest ?h else cached_manifest ?h) = ManifestFile example_manifest"
    by (simp add: example_host_def)
  have d: "user_config example_manifest = Some [(''api_key'', ?f)]"
    by (simp add: example_manifest_def)
  have e: "getPackageConfig ?h (name (parsePackageSpec ''@acme/tool'')) = Inr None" by simp
  have u: "toUpperCase ?h = ascii_upper" by (simp add: example_host_def)
  have f: "[''api_key''] = map fst (filter (\<lambda>(k, f).
                        resolved_value (toUpperCase ?h) (stored_of None) (process_env ?h) k f = None
                        \<and> required f = Some True) [(''api_key'', ?f)])"
    unfolding u
    by (simp add: resolved_value_def stored_of_def get_property_def object_prototype_members_def
          ascii_upper_api_key example_host_def)
  show ?thesis
    using missing_required_config_exits [OF a b c d e f]
    by (simp add: example_parse u ascii_upper_api_key)
qed

text \<open>
  C9, at a required field whose key names a member of \<^verbatim>\<open>Object.prototype\<close>.  The
  manifest marks \<open>toString\<close> as required; nothing is stored for the package, the variable
  \<open>MPAK_CONFIG_TOSTRING\<close> is not set, the field has no default, and there is no terminal.
  The run should report the key and exit with status 1.  The lookup
  \<^verbatim>\<open>storedConfig[key]\<close> finds the inherited \<^verbatim>\<open>toString\<close>, so the field is not put on
  the list of missing required fields: nothing is written to the error stream, and the
  child is spawned, with the text of that function where the value was to go.
\<close>

theorem required_field_named_toString_not_reported:
  "isTTY required_toString_host = False
   \<and> getPackageConfig required_toString_host ''@acme/tool'' = Inr None
   \<and> process_env required_toString_host (''MPAK_CONFIG_'' @ ascii_upper ''toString'') = None
   \<and> fst (handleRun required_toString_host ''@acme/tool'' \<lparr>update = False\<rparr>) = [NewConfigManager]
   \<and> spawned (snd (handleRun required_toString_host ''@acme/tool'' \<lparr>update = False\<rparr>))
   \<and> spawned_env (snd (handleRun required_toString_host ''@acme/tool'' \<lparr>update = False\<rparr>))
        ''TOOL_TOKEN''
       = Some ''function toString() { [native code] }''"
proof -
  have ec: "ensureCached required_toString_host \<lparr>update = False\<rparr> ''@acme/tool'' None
              ''/home/user/.mpak/cache/acme-tool'' = ([], Inr False)"
    by (simp add: ensureCached_def needsPull_from_cache_def required_toString_host_def
          example_host_def)
  have g: "gatherUserConfigValues ascii_upper ascii_lower (Inr None)
             [''API_TOKEN'' \<mapsto> ''from-launcher''] False (\<lambda>n. []) ''@acme/tool''
             [(''toString'',
               \<lparr>field_type = ''string'', title = None, description = None,
                sensitive = None, required = Some True, default_value = None\<rparr>)]
           = ([], GatherValues [''toString'' \<mapsto> Inherited ''toString''])"
    by (simp add: gatherUserConfigValues_def gather_loop_def gather_step_def stored_of_def
          get_property_def set_property_def object_prototype_members_def Let_def)
  have s: "substituteEnvVars (Some [(''TOOL_TOKEN'', ''${user_config.toString}'')])
             [''toString'' \<mapsto> Inherited ''toString''] ''TOOL_TOKEN''
           = Some ''function toString() { [native code] }''"
    by (simp add: substituteEnvVars_def set_property_def match_user_config_def get_property_def)
  have h: "homedir required_toString_host = ''/home/user''"
    by (simp add: required_toString_host_def example_host_def)
  have run: "handleRun required_toString_host ''@acme/tool'' \<lparr>update = False\<rparr>
               = ([NewConfigManager],
                  Spawned ''node'' (resolveArgs [''${__dirname}/dist/index.js'']
                                      ''/home/user/.mpak/cache/acme-tool'')
                    (spawn_env [''API_TOKEN'' \<mapsto> ''from-launcher'']
                       (substituteEnvVars (Some [(''TOOL_TOKEN'', ''${user_config.toString}'')])
                          [''toString'' \<mapsto> Inherited ''toString'']))
                    ''/home/user/.mpak/cache/acme-tool'')"
    unfolding handleRun_def example_parse Let_def h
    using ec g
    by (simp add: example_cacheDir required_toString_host_def example_host_def
          required_toString_manifest_def launch_def Let_def)
  have "process_env required_toString_host (''MPAK_CONFIG_'' @ ascii_upper ''toString'') = None"
    by (simp add: ascii_upper_toString required_toString_host_def example_host_def)
  moreover have "isTTY required_toString_host = False"
    and "getPackageConfig required_toString_host ''@acme/tool'' = Inr None"
    by (simp_all add: required_toString_host_def example_host_def)
  ultimately show ?thesis
    unfolding run using s by (simp add: spawned_def spawned_env_def spawn_env_def)
qed

section \<open>Optional fields without a value\<close>

text \<open>
  What the code does for an optional field whose key names no member of
  \<^verbatim>\<open>Object.prototype\<close> and that has no stored value, no \<open>MPAK_CONFIG_\<close> variable and
  no default.  The field is not put on the list of missing required fields, so it is
  neither prompted for nor reported, and an object returned by
  \<^verbatim>\<open>gatherUserConfigValues\<close> has no entry for its key.  Under that object a reference to
  the key stays as it is, and the substitution goes on behind it; a string whose only
  references are to the key is unchanged, and so is an environment value of that kind
  under a key other than \<open>__proto__\<close>.
\<close>

lemma optional_field_omitted:
  assumes "distinct (map fst userConfig)" "(key, fld) \<in> set userConfig"
      and "required fld \<noteq> Some True"
      and "key \<notin> set object_prototype_members"
      and "stored_of stored key = None"
      and "penv (''MPAK_CONFIG_'' @ upper key) = None"
      and "default_value fld = None"
      and "gatherUserConfigValues upper lower (Inr stored) penv tty ans packageName userConfig
             = (evs, GatherValues vals)"
  shows "vals key = None
       \<and> key \<notin> fst ` set (snd (gather_loop upper (stored_of stored) penv userConfig))
       \<and> (key \<noteq> [] \<and> CHR ''}'' \<notin> set key \<longrightarrow>
            substituteUserConfig (''${user_config.'' @ key @ ''}'' @ rest) vals
              = ''${user_config.'' @ key @ ''}'' @ substituteUserConfig rest vals)
       \<and> ((\<forall>k \<in> set (placeholder_keys s). k = key) \<longrightarrow> substituteUserConfig s vals = s)
       \<and> (distinct (map fst kvs) \<and> (var, v) \<in> set kvs \<and> var \<noteq> ''__proto__''
            \<and> (\<forall>k \<in> set (placeholder_keys v). k = key) \<longrightarrow>
            substituteEnvVars (Some kvs) vals var = Some v)"
proof -
  have np: "key \<noteq> ''__proto__''" using assms(4) by (auto simp: object_prototype_members_def)
  have rv: "resolved_value upper (stored_of stored) penv key fld = None"
    using assms(4-7) by (simp add: resolved_value_def get_property_def)
  have nm: "key \<notin> fst ` set (snd (gather_loop upper (stored_of stored) penv userConfig))"
    using assms(1-3) by (intro resolved_not_missing [of userConfig key fld]) auto
  have "vals key = fst (gather_loop upper (stored_of stored) penv userConfig) key"
    using assms(8) nm by (rule gatherUserConfigValues_returned)
  also have "\<dots> = resolved_value upper (stored_of stored) penv key fld"
    using assms(1,2) np by (rule gather_loop_at)
  finally have none: "vals key = None" using rv by simp
  then have gp: "get_property vals key = None"
    using assms(4) by (simp add: get_property_def)
  have ref: "substituteUserConfig (''${user_config.'' @ key @ ''}'' @ rest) vals
               = ''${user_config.'' @ key @ ''}'' @ substituteUserConfig rest vals"
    if "key \<noteq> [] \<and> CHR ''}'' \<notin> set key"
    using that gp substituteUserConfig_reference [of key rest vals] by simp
  have only: "substituteUserConfig t vals = t" if "\<forall>k \<in> set (placeholder_keys t). k = key" for t
    using that gp by (intro substituteUserConfig_absent) auto
  have envv: "substituteEnvVars (Some kvs) vals var = Some v"
    if "distinct (map fst kvs) \<and> (var, v) \<in> set kvs \<and> var \<noteq> ''__proto__''
          \<and> (\<forall>k \<in> set (placeholder_keys v). k = key)"
    using that only [of v] substituteEnvVars_value [of kvs var v vals] by simp
  show ?thesis using none nm ref only envv by blast
qed

text \<open>
  C10, at an optional field whose key names a member of \<^verbatim>\<open>Object.prototype\<close>.  The
  manifest declares \<open>constructor\<close>, not required and without a default; nothing is
  stored for the package and the variable \<open>MPAK_CONFIG_CONSTRUCTOR\<close> is not set.  The
  object returned should have no entry for the key, and the reference
  \<open>${user_config.constructor}\<close> in the environment of the server should stay as it is.
  The lookup \<^verbatim>\<open>storedConfig[key]\<close> finds the inherited \<^verbatim>\<open>constructor\<close>, the loop
  puts it into the object under the key, and the child gets the text of that function
  in place of the reference.
\<close>

theorem optional_field_named_constructor_gets_value:
  "getPackageConfig optional_constructor_host ''@acme/tool'' = Inr None
   \<and> process_env optional_constructor_host (''MPAK_CONFIG_'' @ ascii_upper ''constructor'') = None
   \<and> gatherUserConfigValues ascii_upper ascii_lower (Inr None)
        (process_env optional_constructor_host) False (\<lambda>n. []) ''@acme/tool''
        [(''constructor'', \<lparr>field_type = ''string'', title = None, description = None,
                             sensitive = None, required = None, default_value = None\<rparr>)]
       = ([], GatherValues [''constructor'' \<mapsto> Inherited ''constructor''])
   \<and> spawned_env (snd (handleRun optional_constructor_host ''@acme/tool'' \<lparr>update = False\<rparr>))
        ''TOOL_TOKEN''
       = Some ''function Object() { [native code] }''"
proof -
  have ec: "ensureCached optional_constructor_host \<lparr>update = False\<rparr> ''@acme/tool'' None
              ''/home/user/.mpak/cache/acme-tool'' = ([], Inr False)"
    by (simp add: ensureCached_def needsPull_from_cache_def optional_constructor_host_def
          example_host_def)
  have pe: "process_env optional_constructor_host = [''API_TOKEN'' \<mapsto> ''from-launcher'']"
    by (simp add: optional_constructor_host_def example_host_def)
  have g: "gatherUserConfigValues ascii_upper ascii_lower (Inr None)
             [''API_TOKEN'' \<mapsto> ''from-launcher''] False (\<lambda>n. []) ''@acme/tool''
             [(''constructor'',
               \<lparr>field_type = ''string'', title = None, description = None,
                sensitive = None, required = None, default_value = None\<rparr>)]
           = ([], GatherValues [''constructor'' \<mapsto> Inherited ''constructor''])"
    by (simp add: gatherUserConfigValues_def gather_loop_def gather_step_def stored_of_def
          get_property_def set_property_def object_prototype_members_def Let_def)
  have s: "substituteEnvVars (Some [(''TOOL_TOKEN'', ''${user_config.constructor}'')])
             [''constructor'' \<mapsto> Inherited ''constructor''] ''TOOL_TOKEN''
           = Some ''function Object() { [native code] }''"
    by (simp add: substituteEnvVars_def set_property_def match_user_config_def get_property_def)
  have h: "homedir optional_constructor_host = ''/home/user''"
    by (simp add: optional_constructor_host_def example_host_def)
  have run: "snd (handleRun optional_constructor_host ''@acme/tool'' \<lparr>update = False\<rparr>)
               = Spawned ''node'' (resolveArgs [''${__dirname}/dist/index.js'']
                                      ''/home/user/.mpak/cache/acme-tool'')
                    (spawn_env [''API_TOKEN'' \<mapsto> ''from-launcher'']
                       (substituteEnvVars (Some [(''TOOL_TOKEN'', ''${user_config.constructor}'')])
                          [''constructor'' \<mapsto> Inherited ''constructor'']))
                    ''/home/user/.mpak/cache/acme-tool''"
    unfolding handleRun_def example_parse Let_def h
    using ec g
    by (simp add: example_cacheDir optional_constructor_host_def example_host_def
          optional_constructor_manifest_def launch_def Let_def)
  have "process_env optional_constructor_host (''MPAK_CONFIG_'' @ ascii_upper ''constructor'') = None"
    by (simp add: ascii_upper_constructor pe)
  moreover have "getPackageConfig optional_constructor_host ''@acme/tool'' = Inr None"
    by (simp add: optional_constructor_host_def example_host_def)
  ultimately show ?thesis
    unfolding run pe using s g by (simp add: spawned_env_def spawn_env_def)
qed

section \<open>The cache-validity decision, stated\<close>



section \<open>A forced refresh\<close>

text \<open>
  C4 (as the code has it).  Let the cache hold metadata and let the registry resolve the
  request to the cached version.  Without the force-refresh flag, when the first decision
  asks for a pull, the registry is asked and nothing else is done: no download, no
  extraction, and the run goes on with the bundle in the cache.  With the force-refresh
  flag the bundle is downloaded, and extracted when the download succeeds.
\<close>

theorem registry_resolves_to_cached_version:
  assumes "getCacheMetadata host = Some meta"
      and "getDownloadInfo host nm requestedVersion (detectPlatform host) = Inr downloadInfo"
      and "bundle_version downloadInfo = cached_version meta"
  shows "(\<not> update options
            \<and> needsPull_from_cache (getCacheMetadata host) options requestedVersion \<longrightarrow>
            ensureCached host options nm requestedVersion cacheDir
              = ([GetDownloadInfo nm requestedVersion (detectPlatform host)], Inr False))
       \<and> (update options \<longrightarrow>
            DownloadBundle (url downloadInfo)
                (join [homedir host, ''.mpak'', ''tmp'', now_millis host @ ''.mcpb''])
              \<in> set (fst (ensureCached host options nm requestedVersion cacheDir))
            \<and> (downloadBundle_error host = None \<longrightarrow>
                 ExtractZip (join [homedir host, ''.mpak'', ''tmp'', now_millis host @ ''.mcpb''])
                     cacheDir
                   \<in> set (fst (ensureCached host options nm requestedVersion cacheDir))))"
proof (intro conjI impI)
  assume "\<not> update options
            \<and> needsPull_from_cache (getCacheMetadata host) options requestedVersion"
  then show "ensureCached host options nm requestedVersion cacheDir
               = ([GetDownloadInfo nm requestedVersion (detectPlatform host)], Inr False)"
    using assms by (simp add: ensureCached_def)
next
  assume u: "update options"
  then have np: "needsPull_from_cache (getCacheMetadata host) options requestedVersion"
    using assms(1) by (simp add: needsPull_from_cache_def)
  show "DownloadBundle (url downloadInfo)
                (join [homedir host, ''.mpak'', ''tmp'', now_millis host @ ''.mcpb''])
              \<in> set (fst (ensureCached host options nm requestedVersion cacheDir))"
    using u np assms
    by (auto simp: ensureCached_def pull_def Let_def split: option.splits prod.splits sum.splits)
next
  assume u: "update options" and ok: "downloadBundle_error host = None"
  then have np: "needsPull_from_cache (getCacheMetadata host) options requestedVersion"
    using assms(1) by (simp add: needsPull_from_cache_def)
  show "ExtractZip (join [homedir host, ''.mpak'', ''tmp'', now_millis host @ ''.mcpb'']) cacheDir
          \<in> set (fst (ensureCached host options nm requestedVersion cacheDir))"
    using u ok np assms
    by (auto simp: ensureCached_def pull_def Let_def split: option.splits prod.splits sum.splits)
qed

lemma example_tempPath:
  "join [''/home/user'', ''.mpak'', ''tmp'', ''1704067200000.mcpb'']
     = ''/home/user/.mpak/tmp/1704067200000.mcpb''"
  by (simp add: join_def path_normalize_def normalizeString_def normalize_segment_def Let_def)

theorem registry_resolves_to_cached_version_witness:
  "ensureCached example_host \<lparr>update = False\<rparr> ''@acme/tool'' (Some ''latest'')
       ''/home/user/.mpak/cache/acme-tool''
     = ([GetDownloadInfo ''@acme/tool'' (Some ''latest'') (''linux'', ''x64'')], Inr False)
   \<and> DownloadBundle ''https://registry.example/acme-tool-1.0.0.mcpb''
         ''/home/user/.mpak/tmp/1704067200000.mcpb''
       \<in> set (fst (ensureCached example_host \<lparr>update = True\<rparr> ''@acme/tool'' (Some ''latest'')
                     ''/home/user/.mpak/cache/acme-tool''))"
proof -
  let ?meta = "\<lparr>cached_version = ''1.0.0'', pulledAt = ''2024-01-01T00:00:00.000Z'',
                 platform = (''linux'', ''x64'')\<rparr>"
  let ?info = "\<lparr>url = ''https://registry.example/acme-tool-1.0.0.mcpb'',
                 bundle_version = ''1.0.0'', bundle_platform = (''linux'', ''x64'')\<rparr>"
  have m: "getCacheMetadata example_host = Some ?meta" by (simp add: example_host_def)
  have r: "getDownloadInfo example_host ''@acme/tool'' (Some ''latest'') (detectPlatform example_host)
             = Inr ?info"
    by (simp add: example_host_def)
  have v: "bundle_version ?info = cached_version ?meta" by simp
  have np: "needsPull_from_cache (getCacheMetadata example_host) \<lparr>update = False\<rparr> (Some ''latest'')"
    by (simp add: needsPull_from_cache_def example_host_def)
  have p: "detectPlatform example_host = (''linux'', ''x64'')"
    and h: "homedir example_host = ''/home/user''"
    and n: "now_millis example_host = ''1704067200000''"
    by (simp_all add: example_host_def)
  have a: "ensureCached example_host \<lparr>update = False\<rparr> ''@acme/tool'' (Some ''latest'')
             ''/home/user/.mpak/cache/acme-tool''
           = ([GetDownloadInfo ''@acme/tool'' (Some ''latest'') (''linux'', ''x64'')], Inr False)"
    using registry_resolves_to_cached_version
            [OF m r v, of "\<lparr>update = False\<rparr>" "''/home/user/.mpak/cache/acme-tool''"] np p
    by simp
  have b: "DownloadBundle ''https://registry.example/acme-tool-1.0.0.mcpb''
             ''/home/user/.mpak/tmp/1704067200000.mcpb''
           \<in> set (fst (ensureCached example_host \<lparr>update = True\<rparr> ''@acme/tool'' (Some ''latest'')
                         ''/home/user/.mpak/cache/acme-tool''))"
    using registry_resolves_to_cached_version
            [OF m r v, of "\<lparr>update = True\<rparr>" "''/home/user/.mpak/cache/acme-tool''"]
          h n example_tempPath
    by simp
  show ?thesis using a b by blast
qed

text \<open>
  C4 as the specification words it fails: with the force-refresh flag set and the
  registry's version equal to the cached one, the bundle is downloaded and extracted.
\<close>

theorem forced_refresh_downloads_again:
  "getCacheMetadata example_host
     = Some \<lparr>cached_version = ''1.0.0'', pulledAt = ''2024-01-01T00:00:00.000Z'',
             platform = (''linux'', ''x64'')\<rparr>
   \<and> getDownloadInfo example_host ''@acme/tool'' None (''linux'', ''x64'')
       = Inr \<lparr>url = ''https://registry.example/acme-tool-1.0.0.mcpb'',
              bundle_version = ''1.0.0'', bundle_platform = (''linux'', ''x64'')\<rparr>
   \<and> fst (ensureCached example_host \<lparr>update = True\<rparr> ''@acme/tool'' None
          ''/home/user/.mpak/cache/acme-tool'')
     = [GetDownloadInfo ''@acme/tool'' None (''linux'', ''x64''),
        Mkdir ''/home/user/.mpak/tmp'',
        StderrWrite (''=> Pulling @acme/tool@1.0.0...'' @ [CHR 0x0A]),
        DownloadBundle ''https://registry.example/acme-tool-1.0.0.mcpb''
          ''/home/user/.mpak/tmp/1704067200000.mcpb'',
        Rm ''/home/user/.mpak/cache/acme-tool'',
        Mkdir ''/home/user/.mpak/cache/acme-tool'',
        Mkdir ''/home/user/.mpak/cache/acme-tool'',
        ExtractZip ''/home/user/.mpak/tmp/1704067200000.mcpb'' ''/home/user/.mpak/cache/acme-tool'',
        WriteCacheMetadata ''/home/user/.mpak/cache/acme-tool''
          \<lparr>cached_version = ''1.0.0'', pulledAt = ''2024-01-01T00:00:00.000Z'',
           platform = (''linux'', ''x64'')\<rparr>,
        Rm ''/home/user/.mpak/tmp/1704067200000.mcpb'',
        StderrWrite (''=> Cached @acme/tool@1.0.0'' @ [CHR 0x0A])]"
  by (simp add: ensureCached_def needsPull_from_cache_def pull_def example_host_def
        example_tempPath dirname_def Let_def)

section \<open>The environment of the child\<close>

lemma spawn_env_manifest_wins:
  "substitutedEnv k = Some v \<Longrightarrow> spawn_env penv substitutedEnv k = Some v"
  by (simp add: spawn_env_def)

lemma launch_manifest_env_wins:
  assumes "substitutedEnv k = Some v" "k \<noteq> ''PYTHONPATH''"
      and "server_type manifest \<in> {Node, Python, Binary}"
  shows "spawned_env (snd (launch host cacheDir manifest substitutedEnv)) k = Some v"
  using assms
  by (auto simp: launch_def spawned_env_def spawn_env_def Let_def findPythonCommand_def
           split: server_type.splits option.splits prod.splits)

text \<open>
  C1, on the example host.  The launcher has set \<open>API_TOKEN\<close> in the ambient
  environment, and the manifest declares \<open>API_TOKEN\<close> as \<open>${user_config.api_key}\<close>, for
  which the store holds a value.  The child is spawned with the value from the manifest
  and the store: in \<^verbatim>\<open>{ ...process.env, ...substitutedEnv }\<close> the manifest's
  environment is laid over the ambient one.
\<close>

theorem manifest_env_overrides_ambient:
  "process_env example_host ''API_TOKEN'' = Some ''from-launcher''
   \<and> spawned_env (snd (handleRun example_host ''@acme/tool'' \<lparr>update = False\<rparr>)) ''API_TOKEN''
        = Some ''from-store''"
proof -
  have ec: "ensureCached example_host \<lparr>update = False\<rparr> ''@acme/tool'' None
              ''/home/user/.mpak/cache/acme-tool'' = ([], Inr False)"
    by (simp add: ensureCached_def needsPull_from_cache_def example_host_def)
  have g: "gatherUserConfigValues ascii_upper ascii_lower
             (Inr (Some [''api_key'' \<mapsto> ''from-store'']))
             [''API_TOKEN'' \<mapsto> ''from-launcher''] False (\<lambda>n. []) ''@acme/tool''
             [(''api_key'',
               \<lparr>field_type = ''string'', title = Some ''API Token'', description = None,
                sensitive = Some True, required = Some True, default_value = None\<rparr>)]
           = ([], GatherValues [''api_key'' \<mapsto> JSString ''from-store''])"
    by (simp add: gatherUserConfigValues_def gather_loop_def gather_step_def stored_of_def
          get_property_def set_property_def Let_def)
  have s: "substituteEnvVars (Some [(''API_TOKEN'', ''${user_config.api_key}'')])
             [''api_key'' \<mapsto> JSString ''from-store''] ''API_TOKEN'' = Some ''from-store''"
    by (simp add: substituteEnvVars_def set_property_def match_user_config_def get_property_def)
  have h: "homedir example_host = ''/home/user''" by (simp add: example_host_def)
  have "spawned_env (snd (handleRun example_host ''@acme/tool'' \<lparr>update = False\<rparr>)) ''API_TOKEN''
          = Some ''from-store''"
    unfolding handleRun_def example_parse Let_def h
    using ec g s
    by (simp add: example_cacheDir example_host_def example_manifest_def launch_def spawn_env_def
          spawned_env_def Let_def)
  moreover have "process_env example_host ''API_TOKEN'' = Some ''from-launcher''"
    by (simp add: example_host_def)
  ultimately show ?thesis by blast
qed

section \<open>Loading the configuration store\<close>

text \<open>
  C8, at a file that is not of the stated form.  An array passes for an object
  (\<^verbatim>\<open>typeof [] === 'object'\<close>), so a store whose \<open>packages\<close> is an array, or holds an
  array in place of the map of one package, is loaded without an error.
\<close>

theorem loadConfig_accepts_array_for_packages:
  "fst (loadConfig \<lparr>configFile = ''/home/user/.mpak/config.json'', config = None\<rparr>
          (Parsed (JObject [(''version'', JString ''1.0.0''),
                            (''lastUpdated'', JString ''2024-01-01T00:00:00Z''),
                            (''packages'', JArray [])]))
          ''2024-06-01T00:00:00.000Z'')
     = Inr (JObject [(''version'', JString ''1.0.0''),
                     (''lastUpdated'', JString ''2024-01-01T00:00:00Z''),
                     (''packages'', JArray [])])"
  by (simp add: loadConfig_def validateConfig_def knownFields_def)

lemma validateConfig_accepts_array_for_package:
  "validateConfig
     (JObject [(''version'', JString ''1.0.0''),
               (''lastUpdated'', JString ''2024-01-01T00:00:00Z''),
               (''packages'', JObject [(''@acme/tool'', JArray [JString ''secret''])])])
     ''/home/user/.mpak/config.json''
   = Inr (JObject [(''version'', JString ''1.0.0''),
                   (''lastUpdated'', JString ''2024-01-01T00:00:00Z''),
                   (''packages'', JObject [(''@acme/tool'', JArray [JString ''secret''])])])"
  by (simp add: validateConfig_def knownFields_def digits.simps)

text \<open>
  What \<^verbatim>\<open>validateConfig\<close> does reject: a value that is not an object or an array, a
  missing or non-string \<open>version\<close> or \<open>lastUpdated\<close>, a \<open>registryUrl\<close> that is not a
  string, a \<open>packages\<close> that is neither object nor array, and an unknown top-level field.
\<close>

lemma validateConfig_accepted:
  assumes "validateConfig data configPath = Inr cfg"
  shows "cfg = data
       \<and> typeof data = ''object'' \<and> data \<noteq> JNull
       \<and> (\<exists>v. get_field data ''version'' = Some (JString v))
       \<and> (\<exists>v. get_field data ''lastUpdated'' = Some (JString v))
       \<and> (get_field data ''registryUrl'' = None \<or> (\<exists>v. get_field data ''registryUrl'' = Some (JString v)))
       \<and> (\<forall>p. get_field data ''packages'' = Some p \<longrightarrow> typeof p = ''object'' \<and> p \<noteq> JNull)
       \<and> set (map fst (entries data)) \<subseteq> set knownFields"
proof -
  have str: "typeof v = ''string'' \<Longrightarrow> \<exists>s. v = JString s" for v by (cases v) auto
  from assms have a: "typeof data = ''object''" "data \<noteq> JNull"
    and b: "\<exists>v. get_field data ''version'' = Some v \<and> typeof v = ''string''"
    and c: "\<exists>v. get_field data ''lastUpdated'' = Some v \<and> typeof v = ''string''"
    and d: "get_field data ''registryUrl'' = None
            \<or> (\<exists>v. get_field data ''registryUrl'' = Some v \<and> typeof v = ''string'')"
    and e: "\<forall>p. get_field data ''packages'' = Some p \<longrightarrow> typeof p = ''object'' \<and> p \<noteq> JNull"
    and f: "find (\<lambda>key. key \<notin> set knownFields) (map fst (entries data)) = None"
    and g: "cfg = data"
    by (auto simp: validateConfig_def split: if_splits option.splits)
  from f have "set (map fst (entries data)) \<subseteq> set knownFields"
    by (auto simp: find_None_iff)
  then show ?thesis using a b c d e g str by blast
qed


end
